theory Spec2Isabelle
  imports Complex_Main "HOL-Library.Multiset"
begin

section \<open>Data model\<close>

text \<open>
  A cell of a pandas frame.  Prices and indicator values are floats: a finite float is
  read as the real number it denotes (rounding is not modelled), the two infinities and
  NaN are separate values, and \<open>PyNone\<close> is Python's \<open>None\<close> stored in an object
  column.  NaN is what pandas and ta write for "no value" (warm-up rows, columns a
  concatenated frame did not have).
\<close>

datatype cell = Num real | PosInf | NegInf | NaN | PyNone

datatype py_error = TypeError | IndexError | ValueError | RuntimeError

datatype signal = BUY | SELL | HOLD

text \<open>
  One row of the frame the program threads through \<open>main\<close>.  \<open>Date\<close> is the naive
  timestamp in seconds.  A frame that has not been through \<open>get_indicator_data\<close> yet
  (the historical fetch, the live fetch) has no indicator columns; \<open>pd.concat\<close> gives
  such rows NaN in those columns, and that is how they are written here
  (\<open>price_row\<close>).
\<close>

record row =
  Date :: int
  Adj_Close :: cell
  Volume :: cell
  SMA_20 :: cell
  Bollinger_Upper :: cell
  Bollinger_Lower :: cell
  RSI_14 :: cell
  MACD :: cell
  MACD_Signal :: cell
  MACD_Diff :: cell

definition price_row :: "int \<Rightarrow> cell \<Rightarrow> cell \<Rightarrow> row" where
  "price_row d a v =
     \<lparr>Date = d, Adj_Close = a, Volume = v, SMA_20 = NaN, Bollinger_Upper = NaN,
      Bollinger_Lower = NaN, RSI_14 = NaN, MACD = NaN, MACD_Signal = NaN, MACD_Diff = NaN\<rparr>"

text \<open>
  What \<open>yfinance\<close>'s \<open>Ticker.history\<close> hands back: one quote per trading day, with the
  wall-clock timestamp and (for a timezone-aware column) its UTC offset, the \<open>Close\<close>
  column, the \<open>Adj Close\<close> column when the frame has one, and \<open>Volume\<close>.
\<close>

record quote =
  q_wall :: int
  q_offset :: int
  q_Close :: cell
  q_Adj_Close :: cell
  q_Volume :: cell

record history_frame =
  tz_aware :: bool
  has_adj_close :: bool
  quotes :: "quote list"

datatype fetch = Fetched history_frame | FetchFailed

text \<open>
  The library calls the program makes and whose code is not part of the repository:
  \<open>DataFrame.sort_values('Date')\<close> of pandas (default \<open>kind\<close>, which pandas documents
  as quicksort and as not stable) and the indicator classes of \<open>ta\<close>.  They are
  parameters of the model; each indicator maps the close column to a column.
\<close>

record library =
  pd_sort_values :: "row list \<Rightarrow> row list"
  ta_sma_indicator :: "cell list \<Rightarrow> nat \<Rightarrow> cell list"
  ta_bollinger_hband :: "cell list \<Rightarrow> nat \<Rightarrow> nat \<Rightarrow> cell list"
  ta_bollinger_lband :: "cell list \<Rightarrow> nat \<Rightarrow> nat \<Rightarrow> cell list"
  ta_rsi :: "cell list \<Rightarrow> nat \<Rightarrow> cell list"
  ta_macd :: "cell list \<Rightarrow> nat \<Rightarrow> nat \<Rightarrow> nat \<Rightarrow> cell list"
  ta_macd_signal :: "cell list \<Rightarrow> nat \<Rightarrow> nat \<Rightarrow> nat \<Rightarrow> cell list"
  ta_macd_diff :: "cell list \<Rightarrow> nat \<Rightarrow> nat \<Rightarrow> nat \<Rightarrow> cell list"

text \<open>
  The contract of \<open>sort_values('Date')\<close>: the rows are rearranged, none lost or added,
  and the dates ascend.  The order of rows with equal dates is left open, as pandas
  leaves it for the default sort.
\<close>

definition sort_contract :: "library \<Rightarrow> bool" where
  "sort_contract lib =
     (\<forall>xs. mset (pd_sort_values lib xs) = mset xs \<and> sorted (map Date (pd_sort_values lib xs)))"

section \<open>Comparisons and arithmetic on cells\<close>

text \<open>
  Python's \<open><=\<close> and \<open><\<close> on two cells: a comparison with \<open>None\<close> raises TypeError,
  a comparison with NaN is False.
\<close>

fun cell_le :: "cell \<Rightarrow> cell \<Rightarrow> py_error + bool" where
  "cell_le PyNone _ = Inl TypeError"
| "cell_le _ PyNone = Inl TypeError"
| "cell_le NaN _ = Inr False"
| "cell_le _ NaN = Inr False"
| "cell_le NegInf _ = Inr True"
| "cell_le _ PosInf = Inr True"
| "cell_le (Num x) (Num y) = Inr (x \<le> y)"
| "cell_le _ _ = Inr False"

fun cell_lt :: "cell \<Rightarrow> cell \<Rightarrow> py_error + bool" where
  "cell_lt PyNone _ = Inl TypeError"
| "cell_lt _ PyNone = Inl TypeError"
| "cell_lt NaN _ = Inr False"
| "cell_lt _ NaN = Inr False"
| "cell_lt (Num x) (Num y) = Inr (x < y)"
| "cell_lt PosInf _ = Inr False"
| "cell_lt _ NegInf = Inr False"
| "cell_lt _ _ = Inr True"

definition cell_gt :: "cell \<Rightarrow> cell \<Rightarrow> py_error + bool" where
  "cell_gt a b = cell_lt b a"

definition cell_ge :: "cell \<Rightarrow> cell \<Rightarrow> py_error + bool" where
  "cell_ge a b = cell_le b a"

text \<open>Python's \<open>and\<close>: the right operand is evaluated only when the left one is true.\<close>

definition py_and :: "py_error + bool \<Rightarrow> py_error + bool \<Rightarrow> py_error + bool" where
  "py_and a b = (case a of Inl e \<Rightarrow> Inl e | Inr p \<Rightarrow> if p then b else Inr False)"

text \<open>
  \<open>Series.max()\<close> with the default \<open>skipna=True\<close>: missing values (NaN, None) are
  skipped, and a column with no value left gives NaN.
\<close>

definition is_na :: "cell \<Rightarrow> bool" where
  "is_na c = (c = NaN \<or> c = PyNone)"

definition cell_max2 :: "cell \<Rightarrow> cell \<Rightarrow> cell" where
  "cell_max2 a b = (if cell_le a b = Inr True then b else a)"

definition series_max :: "cell list \<Rightarrow> cell" where
  "series_max col =
     (case filter (\<lambda>c. \<not> is_na c) col of
        [] \<Rightarrow> NaN
      | c # cs \<Rightarrow> fold cell_max2 cs c)"

text \<open>
  Division of two numpy scalars.  It follows IEEE 754 and raises nothing: a nonzero
  number over zero is an infinity, zero over zero is NaN (numpy only warns).  Dividing
  with \<open>None\<close> raises TypeError.  Signed zeros are not modelled: a zero divisor counts
  as \<open>+0\<close>.
\<close>

fun np_div :: "cell \<Rightarrow> cell \<Rightarrow> py_error + cell" where
  "np_div PyNone _ = Inl TypeError"
| "np_div _ PyNone = Inl TypeError"
| "np_div NaN _ = Inr NaN"
| "np_div _ NaN = Inr NaN"
| "np_div (Num a) (Num b) =
     (if b \<noteq> 0 then Inr (Num (a / b))
      else if 0 < a then Inr PosInf
      else if a < 0 then Inr NegInf
      else Inr NaN)"
| "np_div (Num a) _ = Inr (Num 0)"
| "np_div PosInf (Num b) = (if 0 \<le> b then Inr PosInf else Inr NegInf)"
| "np_div NegInf (Num b) = (if 0 \<le> b then Inr NegInf else Inr PosInf)"
| "np_div _ _ = Inr NaN"

section \<open>The program\<close>

subsection \<open>Fetching\<close>

text \<open>\<open>tz_convert(None)\<close> on a timezone-aware column gives the UTC wall clock.\<close>

definition naive_date :: "history_frame \<Rightarrow> quote \<Rightarrow> int" where
  "naive_date fr q = (if tz_aware fr then q_wall q - q_offset q else q_wall q)"

text \<open>
  \<open>get_stock_data\<close>: every failure inside the \<open>try\<close> (the fetch itself, an empty
  frame, no adjusted-close column) is re-raised as RuntimeError.
\<close>

definition get_stock_data :: "fetch \<Rightarrow> py_error + row list" where
  "get_stock_data f =
     (case f of
        FetchFailed \<Rightarrow> Inl RuntimeError
      | Fetched fr \<Rightarrow>
          if quotes fr = [] then Inl RuntimeError
          else if \<not> has_adj_close fr then Inl RuntimeError
          else Inr (map (\<lambda>q. price_row (naive_date fr q) (q_Adj_Close q) (q_Volume q))
                     (quotes fr)))"

text \<open>
  \<open>get_live\<close>: an empty frame and every exception give \<open>None\<close>; otherwise the
  columns \<open>Date\<close>, \<open>Close\<close>, \<open>Volume\<close> are kept and \<open>Close\<close> is renamed \<open>Adj_Close\<close>.
\<close>

definition get_live :: "fetch \<Rightarrow> row list option" where
  "get_live f =
     (case f of
        FetchFailed \<Rightarrow> None
      | Fetched fr \<Rightarrow>
          if quotes fr = [] then None
          else Some (map (\<lambda>q. price_row (naive_date fr q) (q_Close q) (q_Volume q))
                      (quotes fr)))"

subsection \<open>The data source\<close>

text \<open>
  What the market data source holds for one trading day: the timestamp with its UTC
  offset, the close as traded (\<open>b_Close\<close>), the close adjusted for splits and dividends
  (\<open>b_Adj_Close\<close>) and the volume.
\<close>

record bar =
  b_wall :: int
  b_offset :: int
  b_Close :: cell
  b_Adj_Close :: cell
  b_Volume :: cell

text \<open>
  \<open>Ticker.history\<close> of \<open>yfinance\<close>, as its documentation gives it.  With
  \<open>auto_adjust=False\<close> the frame has the columns \<open>Close\<close>, as traded, and \<open>Adj Close\<close>.
  With \<open>auto_adjust=True\<close>, which is the default, all prices are adjusted: the column
  \<open>Close\<close> holds the adjusted close and the frame has no \<open>Adj Close\<close> column (the field
  \<open>q_Adj_Close\<close> is then not a column of the frame and is never read).
  \<open>get_stock_data\<close> passes \<open>auto_adjust=False\<close>; \<open>get_live\<close> leaves the default.
\<close>

definition yf_history :: "bool \<Rightarrow> bool \<Rightarrow> bar list \<Rightarrow> history_frame" where
  "yf_history tz auto_adjust bars =
     \<lparr>tz_aware = tz, has_adj_close = (\<not> auto_adjust),
      quotes = map (\<lambda>b. \<lparr>q_wall = b_wall b, q_offset = b_offset b,
                          q_Close = (if auto_adjust then b_Adj_Close b else b_Close b),
                          q_Adj_Close = (if auto_adjust then NaN else b_Adj_Close b),
                          q_Volume = b_Volume b\<rparr>) bars\<rparr>"

text \<open>The row for one trading day with a given close: naive date, close, volume.\<close>

definition bar_row :: "bool \<Rightarrow> cell \<Rightarrow> bar \<Rightarrow> row" where
  "bar_row tz close b =
     price_row (if tz then b_wall b - b_offset b else b_wall b) close (b_Volume b)"

subsection \<open>Scale value\<close>

definition calculate_scale_value :: "row list \<Rightarrow> cell" where
  "calculate_scale_value df =
     (case np_div (series_max (map Adj_Close df)) (series_max (map Volume df)) of
        Inr v \<Rightarrow> v
      | Inl _ \<Rightarrow> Num 0.0001)"

subsection \<open>Indicators\<close>

text \<open>
  \<open>df[name] = series\<close>: the series is aligned with the frame row by row; a row the
  series has no value for gets NaN.
\<close>

definition col_at :: "cell list \<Rightarrow> nat \<Rightarrow> cell" where
  "col_at col i = (if i < length col then col ! i else NaN)"

definition assign_col :: "(cell \<Rightarrow> row \<Rightarrow> row) \<Rightarrow> cell list \<Rightarrow> row list \<Rightarrow> row list" where
  "assign_col upd col df = map (\<lambda>i. upd (col_at col i) (df ! i)) [0..<length df]"

definition timedelta_days :: "int \<Rightarrow> int" where
  "timedelta_days n = n * 86400"

definition get_indicator_data :: "library \<Rightarrow> int \<Rightarrow> row list \<Rightarrow> row list" where
  "get_indicator_data lib today df0 =
     (let df = pd_sort_values lib df0;
          df = assign_col (\<lambda>c r. r\<lparr>SMA_20 := c\<rparr>)
                 (ta_sma_indicator lib (map Adj_Close df) 20) df;
          df = assign_col (\<lambda>c r. r\<lparr>Bollinger_Upper := c\<rparr>)
                 (ta_bollinger_hband lib (map Adj_Close df) 20 2) df;
          df = assign_col (\<lambda>c r. r\<lparr>Bollinger_Lower := c\<rparr>)
                 (ta_bollinger_lband lib (map Adj_Close df) 20 2) df;
          df = assign_col (\<lambda>c r. r\<lparr>RSI_14 := c\<rparr>)
                 (ta_rsi lib (map Adj_Close df) 14) df;
          df = assign_col (\<lambda>c r. r\<lparr>MACD := c\<rparr>)
                 (ta_macd lib (map Adj_Close df) 26 12 9) df;
          df = assign_col (\<lambda>c r. r\<lparr>MACD_Signal := c\<rparr>)
                 (ta_macd_signal lib (map Adj_Close df) 26 12 9) df;
          df = assign_col (\<lambda>c r. r\<lparr>MACD_Diff := c\<rparr>)
                 (ta_macd_diff lib (map Adj_Close df) 26 12 9) df;
          one_year_ago = today - timedelta_days 365
      in filter (\<lambda>r. one_year_ago \<le> Date r) df)"

text \<open>
  The specification's reading of the same function, written from its words: the
  indicator columns are computed over the whole sorted series (\<open>indicator_table\<close>, in
  which the clock does not occur), and the rows of the trailing 365 days are then
  selected (\<open>in_window\<close>).
\<close>

definition in_window :: "int \<Rightarrow> row \<Rightarrow> bool" where
  "in_window today r = (today - timedelta_days 365 \<le> Date r)"

definition indicated_row :: "library \<Rightarrow> row list \<Rightarrow> nat \<Rightarrow> row" where
  "indicated_row lib full i =
     (let close = map Adj_Close full in
      (full ! i)
        \<lparr>SMA_20 := col_at (ta_sma_indicator lib close 20) i,
         Bollinger_Upper := col_at (ta_bollinger_hband lib close 20 2) i,
         Bollinger_Lower := col_at (ta_bollinger_lband lib close 20 2) i,
         RSI_14 := col_at (ta_rsi lib close 14) i,
         MACD := col_at (ta_macd lib close 26 12 9) i,
         MACD_Signal := col_at (ta_macd_signal lib close 26 12 9) i,
         MACD_Diff := col_at (ta_macd_diff lib close 26 12 9) i\<rparr>)"

definition indicator_table :: "library \<Rightarrow> row list \<Rightarrow> row list" where
  "indicator_table lib df =
     (let full = pd_sort_values lib df in map (indicated_row lib full) [0..<length full])"

subsection \<open>Merge\<close>

text \<open>\<open>drop_duplicates('Date', keep='last')\<close>: a row goes when a later row has its date.\<close>

fun drop_duplicates_last :: "row list \<Rightarrow> row list" where
  "drop_duplicates_last [] = []"
| "drop_duplicates_last (r # rs) =
     (if Date r \<in> set (map Date rs) then drop_duplicates_last rs
      else r # drop_duplicates_last rs)"

text \<open>The invariant of the series store: dates strictly increase along the frame.\<close>

definition strictly_ascending :: "row list \<Rightarrow> bool" where
  "strictly_ascending df = sorted_wrt (\<lambda>a b. Date a < Date b) df"

definition update_df :: "library \<Rightarrow> row list \<Rightarrow> row list option \<Rightarrow> row list" where
  "update_df lib df live_df =
     (case live_df of
        None \<Rightarrow> df
      | Some live \<Rightarrow>
          if live = [] then df
          else drop_duplicates_last (pd_sort_values lib (df @ live)))"

text \<open>The rows an incoming frame brings: none when it is \<open>None\<close> or empty.\<close>

definition incoming_rows :: "row list option \<Rightarrow> row list" where
  "incoming_rows live_df = (case live_df of None \<Rightarrow> [] | Some live \<Rightarrow> live)"

subsection \<open>Signal\<close>

definition buy_condition :: "row \<Rightarrow> py_error + bool" where
  "buy_condition r =
     py_and (cell_gt (MACD r) (Num 0))
       (py_and (cell_lt (RSI_14 r) (Num 40)) (cell_le (Adj_Close r) (Bollinger_Lower r)))"

definition sell_condition :: "row \<Rightarrow> py_error + bool" where
  "sell_condition r =
     py_and (cell_lt (MACD r) (Num 0))
       (py_and (cell_gt (RSI_14 r) (Num 60)) (cell_ge (Adj_Close r) (Bollinger_Upper r)))"

text \<open>The body of the \<open>try\<close>: an exception of a comparison leaves through \<open>Inl\<close>.\<close>

definition predict_signal_try :: "row \<Rightarrow> py_error + signal" where
  "predict_signal_try r =
     (case buy_condition r of
        Inl e \<Rightarrow> Inl e
      | Inr buy \<Rightarrow>
          if buy then Inr BUY
          else (case sell_condition r of
                  Inl e \<Rightarrow> Inl e
                | Inr sell \<Rightarrow> if sell then Inr SELL else Inr HOLD))"

definition predict_signal :: "row \<Rightarrow> signal" where
  "predict_signal r = (case predict_signal_try r of Inl _ \<Rightarrow> HOLD | Inr s \<Rightarrow> s)"

subsection \<open>The monitoring loop\<close>

text \<open>
  One pass of \<open>while True\<close> reads the market (the fetch's outcome) and the clock, or is
  cut short by \<open>KeyboardInterrupt\<close>.  The list of events is what the outside world
  supplies to the first passes of the loop, which by itself never ends.
\<close>

datatype event = Poll fetch int | Interrupt

datatype log_line =
    Signal_Line signal
  | Monitoring_Error py_error
  | Monitoring_Stopped
  | Sleep nat

datatype loop_status = Running | Stopped

text \<open>\<open>df.iloc[-1]\<close> raises IndexError on a frame with no rows.\<close>

definition iloc_last :: "row list \<Rightarrow> py_error + row" where
  "iloc_last df = (if df = [] then Inl IndexError else Inr (last df))"

text \<open>
  The \<open>try\<close> body of one pass.  \<open>df\<close> is assigned before \<open>iloc[-1]\<close> can raise, so
  the frame the next pass sees is returned next to the outcome.
\<close>

definition poll_once :: "library \<Rightarrow> row list \<Rightarrow> fetch \<Rightarrow> int \<Rightarrow> row list \<times> (py_error + signal)" where
  "poll_once lib df f today =
     (let live_data = get_live f;
          df = update_df lib df live_data;
          df = get_indicator_data lib today df
      in case iloc_last df of
           Inl e \<Rightarrow> (df, Inl e)
         | Inr latest \<Rightarrow> (df, Inr (predict_signal latest)))"

fun monitor :: "library \<Rightarrow> row list \<Rightarrow> event list \<Rightarrow> row list \<times> log_line list \<times> loop_status" where
  "monitor lib df [] = (df, [], Running)"
| "monitor lib df (Interrupt # evs) = (df, [Monitoring_Stopped], Stopped)"
| "monitor lib df (Poll f today # evs) =
     (case poll_once lib df f today of
        (df', Inr s) \<Rightarrow>
          (case monitor lib df' evs of
             (d, out, st) \<Rightarrow> (d, Signal_Line s # Sleep 60 # out, st))
      | (df', Inl e) \<Rightarrow>
          (case monitor lib df' evs of
             (d, out, st) \<Rightarrow> (d, Monitoring_Error e # Sleep 60 # out, st)))"

section \<open>A small library for running the model\<close>

text \<open>
  To evaluate the model on concrete frames the library parameters are instantiated:
  the sort is insertion sort by date, which is stable, and every indicator column is
  the rolling mean over its first window (undefined until the window is full).
\<close>

fun cell_sum :: "cell list \<Rightarrow> real option" where
  "cell_sum [] = Some 0"
| "cell_sum (Num x # cs) = (case cell_sum cs of None \<Rightarrow> None | Some s \<Rightarrow> Some (x + s))"
| "cell_sum (_ # cs) = None"

definition cell_mean :: "cell list \<Rightarrow> cell" where
  "cell_mean cs = (case cell_sum cs of None \<Rightarrow> NaN | Some s \<Rightarrow> Num (s / real (length cs)))"

definition rolling_mean :: "cell list \<Rightarrow> nat \<Rightarrow> cell list" where
  "rolling_mean col n =
     map (\<lambda>i. if Suc i < n then NaN else cell_mean (take n (drop (Suc i - n) col)))
       [0..<length col]"

definition demo_lib :: library where
  "demo_lib =
     \<lparr>pd_sort_values = sort_key Date,
      ta_sma_indicator = rolling_mean,
      ta_bollinger_hband = (\<lambda>col n k. rolling_mean col n),
      ta_bollinger_lband = (\<lambda>col n k. rolling_mean col n),
      ta_rsi = rolling_mean,
      ta_macd = (\<lambda>col slow fast sign. rolling_mean col slow),
      ta_macd_signal = (\<lambda>col slow fast sign. rolling_mean col slow),
      ta_macd_diff = (\<lambda>col slow fast sign. rolling_mean col slow)\<rparr>"

section \<open>The default sort of pandas\<close>

text \<open>
  \<open>sort_values('Date')\<close> is called without a \<open>kind\<close>, so pandas sorts with numpy's
  \<open>argsort(kind='quicksort')\<close>, which its documentation lists as not stable.  The
  definitions below follow numpy's \<open>aquicksort\<close>: an introsort on the array \<open>t\<close> of
  positions over the keys \<open>v\<close>, with a median-of-three pivot, the larger partition set
  aside, and ranges of at most 17 elements finished by insertion sort.  The switch to
  heapsort when the depth counter \<open>cdepth\<close> runs out is not modelled: the result is
  \<open>None\<close> there.  Positions are natural numbers where numpy has pointers; the bounds in
  \<open>scan_up\<close> and \<open>scan_down\<close> guard the list accesses, in numpy the median-of-three
  step leaves a sentinel at each end of the range.
\<close>

definition swap_at :: "nat \<Rightarrow> nat \<Rightarrow> nat list \<Rightarrow> nat list" where
  "swap_at i j t = t[i := t ! j, j := t ! i]"

definition key_at :: "int list \<Rightarrow> nat list \<Rightarrow> nat \<Rightarrow> int" where
  "key_at v t p = v ! (t ! p)"

function npy_get_msb :: "nat \<Rightarrow> nat" where
  "npy_get_msb n = (if n div 2 = 0 then 0 else Suc (npy_get_msb (n div 2)))"
  by pat_completeness auto
termination
  by (relation "measure (\<lambda>n. n)") auto

declare npy_get_msb.simps [simp del]

function scan_up :: "int list \<Rightarrow> nat list \<Rightarrow> int \<Rightarrow> nat \<Rightarrow> nat" where
  "scan_up v t vp p_i =
     (if p_i < length t \<and> key_at v t p_i < vp then scan_up v t vp (Suc p_i) else p_i)"
  by pat_completeness auto
termination
  by (relation "measure (\<lambda>(v, t, vp, p_i). length t - p_i)") auto

declare scan_up.simps [simp del]

function scan_down :: "int list \<Rightarrow> nat list \<Rightarrow> int \<Rightarrow> nat \<Rightarrow> nat" where
  "scan_down v t vp p_j =
     (if 0 < p_j \<and> vp < key_at v t p_j then scan_down v t vp (p_j - 1) else p_j)"
  by pat_completeness auto
termination
  by (relation "measure (\<lambda>(v, t, vp, p_j). p_j)") auto

declare scan_down.simps [simp del]

fun partition_loop ::
  "nat \<Rightarrow> int list \<Rightarrow> nat list \<Rightarrow> int \<Rightarrow> nat \<Rightarrow> nat \<Rightarrow> (nat list \<times> nat) option" where
  "partition_loop 0 v t vp p_i p_j = None"
| "partition_loop (Suc fuel) v t vp p_i p_j =
     (let p_i = scan_up v t vp (Suc p_i);
          p_j = scan_down v t vp (p_j - 1)
      in if p_j \<le> p_i then Some (t, p_i)
         else partition_loop fuel v (swap_at p_i p_j t) vp p_i p_j)"

definition median_of_three :: "int list \<Rightarrow> nat list \<Rightarrow> nat \<Rightarrow> nat \<Rightarrow> nat \<Rightarrow> nat list" where
  "median_of_three v t p_l p_m p_r =
     (let t = (if key_at v t p_m < key_at v t p_l then swap_at p_m p_l t else t);
          t = (if key_at v t p_r < key_at v t p_m then swap_at p_r p_m t else t);
          t = (if key_at v t p_m < key_at v t p_l then swap_at p_m p_l t else t)
      in t)"

definition partition_range ::
  "int list \<Rightarrow> nat list \<Rightarrow> nat \<Rightarrow> nat \<Rightarrow> (nat list \<times> nat) option" where
  "partition_range v t p_l p_r =
     (let p_m = p_l + (p_r - p_l) div 2;
          t = median_of_three v t p_l p_m p_r;
          vp = key_at v t p_m;
          t = swap_at p_m (p_r - 1) t
      in case partition_loop (p_r - p_l) v t vp p_l (p_r - 1) of
           None \<Rightarrow> None
         | Some (t, p_i) \<Rightarrow> Some (swap_at p_i (p_r - 1) t, p_i))"

function insert_down :: "int list \<Rightarrow> nat list \<Rightarrow> nat \<Rightarrow> int \<Rightarrow> nat \<Rightarrow> nat \<Rightarrow> nat list" where
  "insert_down v t vi vp p_l p_j =
     (if p_l < p_j \<and> vp < key_at v t (p_j - 1)
      then insert_down v (t[p_j := t ! (p_j - 1)]) vi vp p_l (p_j - 1)
      else t[p_j := vi])"
  by pat_completeness auto
termination
  by (relation "measure (\<lambda>(v, t, vi, vp, p_l, p_j). p_j)") auto

declare insert_down.simps [simp del]

function insertion_sort_range :: "int list \<Rightarrow> nat list \<Rightarrow> nat \<Rightarrow> nat \<Rightarrow> nat \<Rightarrow> nat list" where
  "insertion_sort_range v t p_l p_i p_r =
     (if p_i \<le> p_r
      then insertion_sort_range v
             (insert_down v t (t ! p_i) (key_at v t p_i) p_l p_i) p_l (Suc p_i) p_r
      else t)"
  by pat_completeness auto
termination
  by (relation "measure (\<lambda>(v, t, p_l, p_i, p_r). Suc p_r - p_i)") auto

declare insertion_sort_range.simps [simp del]

fun aquicksort_range ::
  "nat \<Rightarrow> int \<Rightarrow> int list \<Rightarrow> nat list \<Rightarrow> nat \<Rightarrow> nat \<Rightarrow> nat list option" where
  "aquicksort_range 0 cdepth v t p_l p_r = None"
| "aquicksort_range (Suc fuel) cdepth v t p_l p_r =
     (if cdepth < 0 then None
      else if 16 < p_r - p_l then
        (case partition_range v t p_l p_r of
           None \<Rightarrow> None
         | Some (t, p_i) \<Rightarrow>
             (case aquicksort_range fuel (cdepth - 1) v t p_l (p_i - 1) of
                None \<Rightarrow> None
              | Some t \<Rightarrow> aquicksort_range fuel (cdepth - 1) v t (p_i + 1) p_r))
      else Some (insertion_sort_range v t p_l (Suc p_l) p_r))"

definition np_argsort_quicksort :: "int list \<Rightarrow> nat list option" where
  "np_argsort_quicksort v =
     (if v = [] then Some []
      else aquicksort_range (Suc (length v)) (2 * int (npy_get_msb (length v))) v
             [0..<length v] 0 (length v - 1))"

text \<open>
  The rows taken in the order of the sorted positions.  Where the model of the sort has
  no answer, a stable sort stands in.
\<close>

definition quicksort_values :: "row list \<Rightarrow> row list" where
  "quicksort_values df =
     (case np_argsort_quicksort (map Date df) of
        Some t \<Rightarrow> map (\<lambda>i. df ! i) t
      | None \<Rightarrow> sort_key Date df)"

definition numpy_lib :: library where
  "numpy_lib = demo_lib\<lparr>pd_sort_values := quicksort_values\<rparr>"

text \<open>
  A stable sort keeps, among the rows of one date, the order they came in.
\<close>

definition stable_sort :: "library \<Rightarrow> bool" where
  "stable_sort lib =
     (\<forall>xs d. filter (\<lambda>r. Date r = d) (pd_sort_values lib xs) = filter (\<lambda>r. Date r = d) xs)"

text \<open>A store of \<open>n\<close> records, one for each of the dates \<open>1, ..., n\<close>.\<close>

definition daily_rows :: "int \<Rightarrow> row list" where
  "daily_rows n = map (\<lambda>d. price_row d (Num 10) (Num 100)) [1..n]"

text \<open>
  A store of the days \<open>0, ..., n\<close> (dates in seconds), the close of day \<open>i\<close> being \<open>i\<close>.
\<close>

definition ramp_rows :: "int \<Rightarrow> row list" where
  "ramp_rows n = map (\<lambda>i. price_row (i * 86400) (Num (real_of_int i)) (Num 100)) [0..n]"

section \<open>Signal evaluation\<close>

lemma cell_lt_na: "is_na a \<or> is_na b \<Longrightarrow> cell_lt a b \<noteq> Inr True"
  by (cases a; cases b; simp add: is_na_def)

lemma cell_le_na: "is_na a \<or> is_na b \<Longrightarrow> cell_le a b \<noteq> Inr True"
  by (cases a; cases b; simp add: is_na_def)

lemma py_and_True: "py_and a b = Inr True \<longleftrightarrow> a = Inr True \<and> b = Inr True"
  by (auto simp: py_and_def split: sum.splits if_splits)

lemma py_and_Inr: "py_and (Inr p) (Inr q) = Inr (p \<and> q)"
  by (cases p) (simp_all add: py_and_def)

lemma buy_condition_defined:
  assumes "buy_condition r = Inr True"
  shows "\<not> is_na (MACD r) \<and> \<not> is_na (RSI_14 r) \<and> \<not> is_na (Adj_Close r)
    \<and> \<not> is_na (Bollinger_Lower r)"
  using assms cell_lt_na[of "Num 0" "MACD r"] cell_lt_na[of "RSI_14 r" "Num 40"]
    cell_le_na[of "Adj_Close r" "Bollinger_Lower r"]
  by (auto simp: buy_condition_def py_and_True cell_gt_def)

lemma sell_condition_defined:
  assumes "sell_condition r = Inr True"
  shows "\<not> is_na (MACD r) \<and> \<not> is_na (RSI_14 r) \<and> \<not> is_na (Adj_Close r)
    \<and> \<not> is_na (Bollinger_Upper r)"
  using assms cell_lt_na[of "MACD r" "Num 0"] cell_lt_na[of "Num 60" "RSI_14 r"]
    cell_le_na[of "Bollinger_Upper r" "Adj_Close r"]
  by (auto simp: sell_condition_def py_and_True cell_gt_def cell_ge_def)

lemma predict_signal_BUY: "predict_signal r = BUY \<longleftrightarrow> buy_condition r = Inr True"
  by (auto simp: predict_signal_def predict_signal_try_def split: sum.splits if_splits)

lemma predict_signal_SELL:
  "predict_signal r = SELL \<longleftrightarrow> buy_condition r = Inr False \<and> sell_condition r = Inr True"
  by (auto simp: predict_signal_def predict_signal_try_def split: sum.splits if_splits)

text \<open>
  Claim C2.  On a row whose MACD, RSI_14, Adj_Close, Bollinger_Lower and Bollinger_Upper
  are all numbers, \<open>predict_signal\<close> gives BUY exactly when \<open>macd > 0\<close>, \<open>rsi14 < 40\<close>
  and \<open>adjustedClose \<le> bollingerLower\<close>; failing that, SELL exactly when \<open>macd < 0\<close>,
  \<open>rsi14 > 60\<close> and \<open>adjustedClose \<ge> bollingerUpper\<close>; failing both, HOLD.  The rules
  are tried in this order and the first that matches decides.
\<close>

theorem predict_signal_rules:
  assumes "MACD r = Num m" and "RSI_14 r = Num s" and "Adj_Close r = Num a"
    and "Bollinger_Lower r = Num lo" and "Bollinger_Upper r = Num hi"
  shows "predict_signal r =
     (if 0 < m \<and> s < 40 \<and> a \<le> lo then BUY
      else if m < 0 \<and> 60 < s \<and> hi \<le> a then SELL
      else HOLD)"
proof -
  have buy: "buy_condition r = Inr (0 < m \<and> s < 40 \<and> a \<le> lo)"
    using assms by (simp add: buy_condition_def cell_gt_def py_and_Inr)
  have sell: "sell_condition r = Inr (m < 0 \<and> 60 < s \<and> hi \<le> a)"
    using assms by (simp add: sell_condition_def cell_gt_def cell_ge_def py_and_Inr)
  show ?thesis
    by (simp add: predict_signal_def predict_signal_try_def buy sell)
qed

text \<open>
  The two scenarios of the specification (BUY at macd 1.5, rsi 35, close 100, lower band
  101; SELL at macd -2, rsi 65, close 105, upper band 100) and a row that matches
  neither rule.
\<close>

theorem predict_signal_rules_witness:
  "predict_signal
     \<lparr>Date = 0, Adj_Close = Num 100, Volume = Num 5000, SMA_20 = Num 104,
      Bollinger_Upper = Num 107, Bollinger_Lower = Num 101, RSI_14 = Num 35,
      MACD = Num 1.5, MACD_Signal = Num 1, MACD_Diff = Num 0.5\<rparr> = BUY
   \<and> predict_signal
     \<lparr>Date = 0, Adj_Close = Num 105, Volume = Num 5000, SMA_20 = Num 97,
      Bollinger_Upper = Num 100, Bollinger_Lower = Num 94, RSI_14 = Num 65,
      MACD = Num (- 2), MACD_Signal = Num (- 1), MACD_Diff = Num (- 1)\<rparr> = SELL
   \<and> predict_signal
     \<lparr>Date = 0, Adj_Close = Num 100, Volume = Num 5000, SMA_20 = Num 100,
      Bollinger_Upper = Num 103, Bollinger_Lower = Num 97, RSI_14 = Num 50,
      MACD = Num 1.5, MACD_Signal = Num 1, MACD_Diff = Num 0.5\<rparr> = HOLD"
  using predict_signal_rules [of "\<lparr>Date = 0, Adj_Close = Num 100, Volume = Num 5000,
      SMA_20 = Num 104, Bollinger_Upper = Num 107, Bollinger_Lower = Num 101, RSI_14 = Num 35,
      MACD = Num 1.5, MACD_Signal = Num 1, MACD_Diff = Num 0.5\<rparr>" "1.5" 35 100 101 107]
    predict_signal_rules [of "\<lparr>Date = 0, Adj_Close = Num 105, Volume = Num 5000,
      SMA_20 = Num 97, Bollinger_Upper = Num 100, Bollinger_Lower = Num 94, RSI_14 = Num 65,
      MACD = Num (- 2), MACD_Signal = Num (- 1), MACD_Diff = Num (- 1)\<rparr>" "- 2" 65 105 94 100]
    predict_signal_rules [of "\<lparr>Date = 0, Adj_Close = Num 100, Volume = Num 5000,
      SMA_20 = Num 100, Bollinger_Upper = Num 103, Bollinger_Lower = Num 97, RSI_14 = Num 50,
      MACD = Num 1.5, MACD_Signal = Num 1, MACD_Diff = Num 0.5\<rparr>" "1.5" 50 100 97 103]
  by simp

text \<open>
  Claim C5, as stated, fails: the BUY rule never reads Bollinger_Upper, so a row whose
  upper band is undefined (NaN) and whose other fields meet the BUY rule gives BUY, not
  HOLD.
\<close>

theorem predict_signal_undefined_upper_counterexample:
  "is_na (Bollinger_Upper
     \<lparr>Date = 0, Adj_Close = Num 100, Volume = Num 5000, SMA_20 = Num 104,
      Bollinger_Upper = NaN, Bollinger_Lower = Num 101, RSI_14 = Num 35,
      MACD = Num 1.5, MACD_Signal = Num 1, MACD_Diff = Num 0.5\<rparr>)
   \<and> predict_signal
     \<lparr>Date = 0, Adj_Close = Num 100, Volume = Num 5000, SMA_20 = Num 104,
      Bollinger_Upper = NaN, Bollinger_Lower = Num 101, RSI_14 = Num 35,
      MACD = Num 1.5, MACD_Signal = Num 1, MACD_Diff = Num 0.5\<rparr> = BUY"
  by (simp add: is_na_def predict_signal_def predict_signal_try_def buy_condition_def
      py_and_def cell_gt_def)

text \<open>
  Claim C5, amended.  \<open>predict_signal\<close> is total: on every row, also one with undefined
  (NaN or None) cells, it gives one of BUY, SELL, HOLD, and an exception raised by a
  comparison is turned into HOLD.  It gives HOLD whenever MACD, RSI_14 or Adj_Close is
  undefined, and whenever both Bollinger bands are.  An undefined lower band excludes
  BUY and an undefined upper band excludes SELL; the band of the other rule is not
  consulted.
\<close>

theorem predict_signal_total:
  "(predict_signal r = BUY \<or> predict_signal r = SELL \<or> predict_signal r = HOLD)
   \<and> (\<forall>e. predict_signal_try r = Inl e \<longrightarrow> predict_signal r = HOLD)
   \<and> (is_na (MACD r) \<or> is_na (RSI_14 r) \<or> is_na (Adj_Close r) \<longrightarrow> predict_signal r = HOLD)
   \<and> (is_na (Bollinger_Lower r) \<and> is_na (Bollinger_Upper r) \<longrightarrow> predict_signal r = HOLD)
   \<and> (is_na (Bollinger_Lower r) \<longrightarrow> predict_signal r \<noteq> BUY)
   \<and> (is_na (Bollinger_Upper r) \<longrightarrow> predict_signal r \<noteq> SELL)"
proof -
  have exhaust: "predict_signal r = BUY \<or> predict_signal r = SELL \<or> predict_signal r = HOLD"
    by (cases "predict_signal r") simp_all
  have caught: "\<forall>e. predict_signal_try r = Inl e \<longrightarrow> predict_signal r = HOLD"
    by (simp add: predict_signal_def)
  have no_buy: "is_na (Bollinger_Lower r) \<longrightarrow> predict_signal r \<noteq> BUY"
    using buy_condition_defined [of r] by (auto simp: predict_signal_BUY)
  have no_sell: "is_na (Bollinger_Upper r) \<longrightarrow> predict_signal r \<noteq> SELL"
    using sell_condition_defined [of r] by (auto simp: predict_signal_SELL)
  have core: "is_na (MACD r) \<or> is_na (RSI_14 r) \<or> is_na (Adj_Close r)
      \<longrightarrow> predict_signal r = HOLD"
    using buy_condition_defined [of r] sell_condition_defined [of r] exhaust
    by (auto simp: predict_signal_BUY predict_signal_SELL)
  have bands: "is_na (Bollinger_Lower r) \<and> is_na (Bollinger_Upper r)
      \<longrightarrow> predict_signal r = HOLD"
    using no_buy no_sell exhaust by blast
  show ?thesis using exhaust caught core bands no_buy no_sell by blast
qed

text \<open>
  A warm-up row (RSI_14 still NaN, every other rule field in the BUY range) and a row of
  \<open>None\<close> cells, whose first comparison raises TypeError: both give HOLD.
\<close>

theorem predict_signal_total_witness:
  "is_na (RSI_14
     \<lparr>Date = 0, Adj_Close = Num 100, Volume = Num 5000, SMA_20 = Num 104,
      Bollinger_Upper = Num 107, Bollinger_Lower = Num 101, RSI_14 = NaN,
      MACD = Num 1.5, MACD_Signal = Num 1, MACD_Diff = Num 0.5\<rparr>)
   \<and> predict_signal
     \<lparr>Date = 0, Adj_Close = Num 100, Volume = Num 5000, SMA_20 = Num 104,
      Bollinger_Upper = Num 107, Bollinger_Lower = Num 101, RSI_14 = NaN,
      MACD = Num 1.5, MACD_Signal = Num 1, MACD_Diff = Num 0.5\<rparr> = HOLD
   \<and> predict_signal_try
     \<lparr>Date = 0, Adj_Close = PyNone, Volume = PyNone, SMA_20 = PyNone,
      Bollinger_Upper = PyNone, Bollinger_Lower = PyNone, RSI_14 = PyNone,
      MACD = PyNone, MACD_Signal = PyNone, MACD_Diff = PyNone\<rparr> = Inl TypeError
   \<and> predict_signal
     \<lparr>Date = 0, Adj_Close = PyNone, Volume = PyNone, SMA_20 = PyNone,
      Bollinger_Upper = PyNone, Bollinger_Lower = PyNone, RSI_14 = PyNone,
      MACD = PyNone, MACD_Signal = PyNone, MACD_Diff = PyNone\<rparr> = HOLD"
proof -
  have na: "is_na (RSI_14
     \<lparr>Date = 0, Adj_Close = Num 100, Volume = Num 5000, SMA_20 = Num 104,
      Bollinger_Upper = Num 107, Bollinger_Lower = Num 101, RSI_14 = NaN,
      MACD = Num 1.5, MACD_Signal = Num 1, MACD_Diff = Num 0.5\<rparr>)"
    by (simp add: is_na_def)
  have raised: "predict_signal_try
     \<lparr>Date = 0, Adj_Close = PyNone, Volume = PyNone, SMA_20 = PyNone,
      Bollinger_Upper = PyNone, Bollinger_Lower = PyNone, RSI_14 = PyNone,
      MACD = PyNone, MACD_Signal = PyNone, MACD_Diff = PyNone\<rparr> = Inl TypeError"
    by (simp add: predict_signal_try_def buy_condition_def py_and_def cell_gt_def)
  show ?thesis
    using na raised
      predict_signal_total [of "\<lparr>Date = 0, Adj_Close = Num 100, Volume = Num 5000,
        SMA_20 = Num 104, Bollinger_Upper = Num 107, Bollinger_Lower = Num 101, RSI_14 = NaN,
        MACD = Num 1.5, MACD_Signal = Num 1, MACD_Diff = Num 0.5\<rparr>"]
      predict_signal_total [of "\<lparr>Date = 0, Adj_Close = PyNone, Volume = PyNone,
        SMA_20 = PyNone, Bollinger_Upper = PyNone, Bollinger_Lower = PyNone, RSI_14 = PyNone,
        MACD = PyNone, MACD_Signal = PyNone, MACD_Diff = PyNone\<rparr>"]
    by blast
qed

section \<open>Merge\<close>

lemma set_drop_duplicates_last: "set (drop_duplicates_last xs) \<subseteq> set xs"
  by (induction xs) auto

lemma dates_drop_duplicates_last: "Date ` set (drop_duplicates_last xs) = Date ` set xs"
  by (induction xs) auto

lemma distinct_drop_duplicates_last: "distinct (map Date (drop_duplicates_last xs))"
  by (induction xs) (auto simp: dates_drop_duplicates_last)

lemma sorted_drop_duplicates_last:
  "sorted (map Date xs) \<Longrightarrow> sorted (map Date (drop_duplicates_last xs))"
proof (induction xs)
  case Nil
  then show ?case by simp
next
  case (Cons x xs)
  then have tl: "sorted (map Date (drop_duplicates_last xs))" by simp
  have "\<forall>y \<in> set (drop_duplicates_last xs). Date x \<le> Date y"
    using Cons.prems set_drop_duplicates_last [of xs] by auto
  with tl show ?case by simp
qed

lemma strictly_ascending_iff:
  "strictly_ascending xs \<longleftrightarrow> sorted (map Date xs) \<and> distinct (map Date xs)"
  using sorted_wrt_map [of "(<)" Date xs] strict_sorted_iff [of "map Date xs"]
  unfolding strictly_ascending_def by blast

lemma strictly_ascending_unique:
  assumes "strictly_ascending xs" and "strictly_ascending ys" and "set ys = set xs"
  shows "ys = xs"
proof -
  have sx: "sorted_wrt (<) (map Date xs)" and sy: "sorted_wrt (<) (map Date ys)"
    using assms(1,2) by (simp_all add: strictly_ascending_def sorted_wrt_map)
  have "set (map Date ys) = set (map Date xs)"
    using assms(3) by simp
  with sx sy have dates: "map Date ys = map Date xs"
    by (rule strict_sorted_equal)
  have "inj_on Date (set xs)"
    using assms(1) by (simp add: strictly_ascending_iff distinct_map)
  then have "inj_on Date (set ys \<union> set xs)"
    using assms(3) by simp
  with dates show ?thesis
    by (simp add: inj_on_map_eq_map)
qed

lemma sort_contract_set: "sort_contract lib \<Longrightarrow> set (pd_sort_values lib xs) = set xs"
  unfolding sort_contract_def by (metis mset_eq_setD)

lemma sort_contract_sorted: "sort_contract lib \<Longrightarrow> sorted (map Date (pd_sort_values lib xs))"
  unfolding sort_contract_def by blast

lemma strictly_ascending_merged:
  assumes "sort_contract lib"
  shows "strictly_ascending (drop_duplicates_last (pd_sort_values lib xs))"
  using assms
  by (simp add: strictly_ascending_iff sorted_drop_duplicates_last sort_contract_sorted
      distinct_drop_duplicates_last)

lemma set_merged:
  assumes "sort_contract lib"
  shows "set (drop_duplicates_last (pd_sort_values lib xs)) \<subseteq> set xs"
  using assms set_drop_duplicates_last [of "pd_sort_values lib xs"]
  by (simp add: sort_contract_set)

lemma dates_merged:
  assumes "sort_contract lib"
  shows "Date ` set (drop_duplicates_last (pd_sort_values lib xs)) = Date ` set xs"
  using assms by (simp add: dates_drop_duplicates_last sort_contract_set)

lemma sort_contract_demo_lib: "sort_contract demo_lib"
  by (simp add: sort_contract_def demo_lib_def)

text \<open>
  Claim C4.  For every existing series that satisfies the store invariant (dates strictly
  ascending) and every incoming frame, backfill dates older than the store's newest date
  included, the frame \<open>update_df\<close> returns is strictly ascending by date, so no two of
  its records share a date and every date sits at its sorted position; its dates are
  those of the two inputs and its records come from them.  When the incoming frame has a
  row the result is sorted and deduplicated whatever the existing frame looked like.
\<close>

theorem update_df_sorted_unique:
  assumes "sort_contract lib"
    and "strictly_ascending df \<or> incoming_rows live_df \<noteq> []"
  shows "strictly_ascending (update_df lib df live_df)
    \<and> Date ` set (update_df lib df live_df) = Date ` set df \<union> Date ` set (incoming_rows live_df)
    \<and> set (update_df lib df live_df) \<subseteq> set df \<union> set (incoming_rows live_df)"
proof (cases "incoming_rows live_df = []")
  case True
  then have "update_df lib df live_df = df"
    by (auto simp: update_df_def incoming_rows_def split: option.splits)
  with True assms(2) show ?thesis by simp
next
  case False
  then obtain live where live: "live_df = Some live" "live \<noteq> []"
    by (auto simp: incoming_rows_def split: option.splits)
  then have upd: "update_df lib df (Some live) = drop_duplicates_last (pd_sort_values lib (df @ live))"
    by (simp add: update_df_def)
  show ?thesis
    using strictly_ascending_merged [OF assms(1), of "df @ live"]
      dates_merged [OF assms(1), of "df @ live"] set_merged [OF assms(1), of "df @ live"]
    by (simp add: upd live incoming_rows_def image_Un)
qed

text \<open>
  A store with the dates 1, 2, 4 receives a backfill for date 3 and a correction for
  date 4: the result has the four dates in order, once each.
\<close>

theorem update_df_sorted_unique_witness:
  "update_df demo_lib
     [price_row 1 (Num 10) (Num 100), price_row 2 (Num 11) (Num 100), price_row 4 (Num 13) (Num 100)]
     (Some [price_row 3 (Num 12) (Num 100), price_row 4 (Num 14) (Num 100)])
   = [price_row 1 (Num 10) (Num 100), price_row 2 (Num 11) (Num 100),
      price_row 3 (Num 12) (Num 100), price_row 4 (Num 14) (Num 100)]
   \<and> strictly_ascending (update_df demo_lib
     [price_row 1 (Num 10) (Num 100), price_row 2 (Num 11) (Num 100), price_row 4 (Num 13) (Num 100)]
     (Some [price_row 3 (Num 12) (Num 100), price_row 4 (Num 14) (Num 100)]))"
proof -
  have ev: "update_df demo_lib
     [price_row 1 (Num 10) (Num 100), price_row 2 (Num 11) (Num 100), price_row 4 (Num 13) (Num 100)]
     (Some [price_row 3 (Num 12) (Num 100), price_row 4 (Num 14) (Num 100)])
   = [price_row 1 (Num 10) (Num 100), price_row 2 (Num 11) (Num 100),
      price_row 3 (Num 12) (Num 100), price_row 4 (Num 14) (Num 100)]"
    by (simp add: update_df_def demo_lib_def price_row_def)
  have ne: "incoming_rows (Some [price_row 3 (Num 12) (Num 100), price_row 4 (Num 14) (Num 100)]) \<noteq> []"
    by (simp add: incoming_rows_def)
  show ?thesis
    using ev ne update_df_sorted_unique [OF sort_contract_demo_lib, of
        "[price_row 1 (Num 10) (Num 100), price_row 2 (Num 11) (Num 100),
          price_row 4 (Num 13) (Num 100)]"
        "Some [price_row 3 (Num 12) (Num 100), price_row 4 (Num 14) (Num 100)]"]
    by blast
qed

text \<open>
  Claim C6.  Merging with an unavailable (\<open>None\<close>) or an empty incoming frame returns the
  existing series as it is and raises nothing.  Hence, for a series \<open>S\<close> that satisfies
  the store invariant, \<open>merge(S, merge(S, \<emptyset>)) = merge(S, \<emptyset>) = S\<close>.
\<close>

theorem update_df_empty_incoming:
  "update_df lib S None = S
   \<and> update_df lib S (Some []) = S
   \<and> (sort_contract lib \<and> strictly_ascending S \<longrightarrow>
        update_df lib S (Some (update_df lib S None)) = S
        \<and> update_df lib S (Some (update_df lib S (Some []))) = S)"
proof -
  have none: "update_df lib S None = S" and empty: "update_df lib S (Some []) = S"
    by (simp_all add: update_df_def)
  have twice: "update_df lib S (Some S) = S" if c: "sort_contract lib" and s: "strictly_ascending S"
  proof (cases "S = []")
    case True
    then show ?thesis by (simp add: update_df_def)
  next
    case False
    let ?m = "drop_duplicates_last (pd_sort_values lib (S @ S))"
    have upd: "update_df lib S (Some S) = ?m"
      using False by (simp add: update_df_def)
    have asc: "strictly_ascending ?m"
      by (rule strictly_ascending_merged [OF c])
    have sub: "set ?m \<subseteq> set S"
      using set_merged [OF c, of "S @ S"] by simp
    have dates: "Date ` set ?m = Date ` set S"
      using dates_merged [OF c, of "S @ S"] by simp
    have inj: "inj_on Date (set S)"
      using s by (simp add: strictly_ascending_iff distinct_map)
    have "set S \<subseteq> set ?m"
    proof
      fix r assume r: "r \<in> set S"
      then have "Date r \<in> Date ` set ?m" using dates by blast
      then obtain r' where r': "r' \<in> set ?m" "Date r' = Date r" by auto
      with sub have "r' \<in> set S" by blast
      with inj r r'(2) have "r' = r" by (auto dest: inj_onD)
      with r'(1) show "r \<in> set ?m" by simp
    qed
    with sub have "set ?m = set S" by blast
    with s asc have "?m = S" by (rule strictly_ascending_unique)
    with upd show ?thesis by simp
  qed
  show ?thesis using none empty twice by simp
qed

theorem update_df_empty_incoming_witness:
  "strictly_ascending [price_row 1 (Num 10) (Num 100), price_row 2 (Num 11) (Num 100)]
   \<and> update_df demo_lib [price_row 1 (Num 10) (Num 100), price_row 2 (Num 11) (Num 100)] None
     = [price_row 1 (Num 10) (Num 100), price_row 2 (Num 11) (Num 100)]
   \<and> update_df demo_lib [price_row 1 (Num 10) (Num 100), price_row 2 (Num 11) (Num 100)]
       (Some (update_df demo_lib
          [price_row 1 (Num 10) (Num 100), price_row 2 (Num 11) (Num 100)] (Some [])))
     = [price_row 1 (Num 10) (Num 100), price_row 2 (Num 11) (Num 100)]"
proof -
  have asc: "strictly_ascending [price_row 1 (Num 10) (Num 100), price_row 2 (Num 11) (Num 100)]"
    by (simp add: strictly_ascending_def price_row_def)
  show ?thesis
    using asc sort_contract_demo_lib
      update_df_empty_incoming [of demo_lib
        "[price_row 1 (Num 10) (Num 100), price_row 2 (Num 11) (Num 100)]"]
    by blast
qed

subsection \<open>Records of one date\<close>

text \<open>
  Of the rows of one date \<open>drop_duplicates\<close> keeps the last one.  So every date of either
  frame has exactly one record in the merged frame, whatever the sort; which record it is
  depends on the order the sort gives to rows of equal date.  Under a stable sort it is
  the last incoming record of that date.
\<close>

lemma argsort_backfill:
  "np_argsort_quicksort [1, 2, 3, 4, 5, 6, 7, 8, 9, 10, 11, 12, 13, 14, 15, 16, 17, 2] =
     Some [0, 17, 1, 2, 3, 4, 5, 6, 7, 8, 9, 10, 11, 12, 13, 14, 15, 16]"
  by code_simp

lemma argsort_single: "np_argsort_quicksort [1, 1] = Some [0, 1]"
  by code_simp

lemma filter_drop_duplicates_last:
  "filter (\<lambda>r. Date r = d) (drop_duplicates_last xs) =
     (if d \<in> Date ` set xs then [last (filter (\<lambda>r. Date r = d) xs)] else [])"
proof (induction xs)
  case Nil
  show ?case by simp
next
  case (Cons x xs)
  show ?case
  proof (cases "Date x \<in> Date ` set xs")
    case True
    then have "filter (\<lambda>r. Date r = d) xs \<noteq> []" if "Date x = d"
      using that by (auto simp: filter_empty_conv)
    with True Cons show ?thesis by auto
  next
    case False
    then have no: "\<And>y. y \<in> set xs \<Longrightarrow> Date y \<noteq> Date x"
      by (metis imageI)
    show ?thesis
    proof (cases "Date x = d")
      case True
      with no have "filter (\<lambda>r. Date r = d) xs = []"
        by (simp add: filter_empty_conv)
      with True False Cons show ?thesis by simp
    next
      case neq: False
      with False Cons show ?thesis by simp
    qed
  qed
qed

lemma update_df_one_record_per_date:
  assumes "sort_contract lib" and "live \<noteq> []" and "d \<in> Date ` set df \<union> Date ` set live"
  shows "\<exists>r. filter (\<lambda>r. Date r = d) (update_df lib df (Some live)) = [r] \<and>
             r \<in> set df \<union> set live"
proof -
  let ?s = "pd_sort_values lib (df @ live)"
  from assms(1) have set: "set ?s = set df \<union> set live"
    using sort_contract_set [of lib "df @ live"] by simp
  with assms(3) have d: "d \<in> Date ` set ?s" by auto
  then have ne: "filter (\<lambda>r. Date r = d) ?s \<noteq> []"
    by (auto simp: filter_empty_conv)
  then have "last (filter (\<lambda>r. Date r = d) ?s) \<in> set (filter (\<lambda>r. Date r = d) ?s)"
    by (rule last_in_set)
  with set have "last (filter (\<lambda>r. Date r = d) ?s) \<in> set df \<union> set live" by auto
  with d assms(2) show ?thesis
    by (simp add: update_df_def filter_drop_duplicates_last)
qed

lemma update_df_stable_incoming_wins:
  assumes "stable_sort lib" and "d \<in> Date ` set live"
  shows "filter (\<lambda>r. Date r = d) (update_df lib df (Some live)) =
           [last (filter (\<lambda>r. Date r = d) live)]"
proof -
  let ?s = "pd_sort_values lib (df @ live)"
  from assms(2) have live: "live \<noteq> []" by auto
  from assms(1) have eq: "filter (\<lambda>r. Date r = d) ?s =
      filter (\<lambda>r. Date r = d) df @ filter (\<lambda>r. Date r = d) live"
    unfolding stable_sort_def by simp
  from assms(2) have ne: "filter (\<lambda>r. Date r = d) live \<noteq> []"
    by (auto simp: filter_empty_conv)
  with eq have "filter (\<lambda>r. Date r = d) ?s \<noteq> []" by simp
  then have "d \<in> Date ` set ?s" by (auto simp: filter_empty_conv)
  with live eq ne show ?thesis
    by (simp add: update_df_def filter_drop_duplicates_last)
qed

lemma stable_sort_demo_lib: "stable_sort demo_lib"
  unfolding stable_sort_def demo_lib_def by (simp add: sort_key_stable)

text \<open>
  Claim C1, at the point where the code leaves it.  A store of 17 daily records is merged
  with one incoming record that corrects the second date.  With numpy's quicksort the
  incoming row is sorted in front of the existing row of its date, so \<open>keep='last'\<close>
  keeps the existing record and the merge returns the store as it was; with a stable sort
  the incoming record takes the place of the existing one.  The merge of one existing with
  one incoming record of the same date keeps the incoming record under either sort.
\<close>

theorem update_df_existing_record_survives:
  "update_df numpy_lib (daily_rows 17) (Some [price_row 2 (Num 12) (Num 100)]) = daily_rows 17 \<and>
   update_df demo_lib (daily_rows 17) (Some [price_row 2 (Num 12) (Num 100)]) =
     (daily_rows 17)[1 := price_row 2 (Num 12) (Num 100)] \<and>
   update_df numpy_lib [price_row 1 (Num 10) (Num 100)] (Some [price_row 1 (Num 12) (Num 100)]) =
     [price_row 1 (Num 12) (Num 100)]"
proof -
  have rows: "daily_rows 17 = map (\<lambda>d. price_row d (Num 10) (Num 100))
      [1, 2, 3, 4, 5, 6, 7, 8, 9, 10, 11, 12, 13, 14, 15, 16, 17]"
    unfolding daily_rows_def by (simp add: upto_rec1)
  have a: "update_df numpy_lib (daily_rows 17) (Some [price_row 2 (Num 12) (Num 100)]) =
      daily_rows 17"
    unfolding rows
    by (simp add: update_df_def numpy_lib_def quicksort_values_def price_row_def argsort_backfill)
  have b: "update_df demo_lib (daily_rows 17) (Some [price_row 2 (Num 12) (Num 100)]) =
     (daily_rows 17)[1 := price_row 2 (Num 12) (Num 100)]"
    unfolding rows
    by (simp add: update_df_def demo_lib_def price_row_def)
  have c: "update_df numpy_lib [price_row 1 (Num 10) (Num 100)]
      (Some [price_row 1 (Num 12) (Num 100)]) = [price_row 1 (Num 12) (Num 100)]"
    by (simp add: update_df_def numpy_lib_def quicksort_values_def price_row_def argsort_single)
  from a b c show ?thesis by simp
qed

section \<open>Indicator computation\<close>

lemma length_assign_col: "length (assign_col upd col df) = length df"
  by (simp add: assign_col_def)

lemma nth_assign_col:
  "i < length df \<Longrightarrow> assign_col upd col df ! i = upd (col_at col i) (df ! i)"
  by (simp add: assign_col_def)

lemma close_assign_col:
  assumes "\<And>c r. Adj_Close (upd c r) = Adj_Close r"
  shows "map Adj_Close (assign_col upd col df) = map Adj_Close df"
  by (rule nth_equalityI) (simp_all add: length_assign_col nth_assign_col assms)

lemma get_indicator_data_table:
  "get_indicator_data lib today df = filter (in_window today) (indicator_table lib df)"
proof -
  define full where "full = pd_sort_values lib df"
  have win: "in_window today = (\<lambda>r. today - timedelta_days 365 \<le> Date r)"
    by (simp add: fun_eq_iff in_window_def)
  have "assign_col (\<lambda>c r. r\<lparr>MACD_Diff := c\<rparr>) (ta_macd_diff lib (map Adj_Close full) 26 12 9)
         (assign_col (\<lambda>c r. r\<lparr>MACD_Signal := c\<rparr>) (ta_macd_signal lib (map Adj_Close full) 26 12 9)
           (assign_col (\<lambda>c r. r\<lparr>MACD := c\<rparr>) (ta_macd lib (map Adj_Close full) 26 12 9)
             (assign_col (\<lambda>c r. r\<lparr>RSI_14 := c\<rparr>) (ta_rsi lib (map Adj_Close full) 14)
               (assign_col (\<lambda>c r. r\<lparr>Bollinger_Lower := c\<rparr>)
                  (ta_bollinger_lband lib (map Adj_Close full) 20 2)
                 (assign_col (\<lambda>c r. r\<lparr>Bollinger_Upper := c\<rparr>)
                    (ta_bollinger_hband lib (map Adj_Close full) 20 2)
                   (assign_col (\<lambda>c r. r\<lparr>SMA_20 := c\<rparr>)
                      (ta_sma_indicator lib (map Adj_Close full) 20) full))))))
        = map (indicated_row lib full) [0..<length full]" (is "?lhs = ?rhs")
    by (rule nth_equalityI)
      (simp_all add: length_assign_col nth_assign_col indicated_row_def Let_def)
  then show ?thesis
    unfolding get_indicator_data_def indicator_table_def Let_def full_def win
    by (simp add: close_assign_col)
qed

lemma set_update_df:
  assumes "sort_contract lib"
  shows "set (update_df lib df live_df) \<subseteq> set df \<union> set (incoming_rows live_df)"
proof (cases "incoming_rows live_df = []")
  case True
  then have "update_df lib df live_df = df"
    by (auto simp: update_df_def incoming_rows_def split: option.splits)
  then show ?thesis by simp
next
  case False
  then obtain live where live: "live_df = Some live" "live \<noteq> []"
    by (auto simp: incoming_rows_def split: option.splits)
  then show ?thesis
    using set_merged [OF assms, of "df @ live"]
    by (simp add: update_df_def incoming_rows_def)
qed

text \<open>
  Claim C3.  \<open>get_indicator_data\<close> computes every indicator column over the whole series
  it receives and only then keeps the rows whose date is at least the current date minus
  365 days.  The result is the window of \<open>indicator_table\<close>, a table with one row per
  input row in which the clock does not occur; each indicator cell of that table is read
  from the column the library computes from the close prices of all sorted input rows.
\<close>

theorem get_indicator_data_full_history:
  "get_indicator_data lib today df = filter (in_window today) (indicator_table lib df)
   \<and> length (indicator_table lib df) = length (pd_sort_values lib df)
   \<and> (\<forall>i < length (pd_sort_values lib df).
        Date (indicator_table lib df ! i) = Date (pd_sort_values lib df ! i)
        \<and> Adj_Close (indicator_table lib df ! i) = Adj_Close (pd_sort_values lib df ! i)
        \<and> Volume (indicator_table lib df ! i) = Volume (pd_sort_values lib df ! i)
        \<and> SMA_20 (indicator_table lib df ! i)
            = col_at (ta_sma_indicator lib (map Adj_Close (pd_sort_values lib df)) 20) i
        \<and> Bollinger_Upper (indicator_table lib df ! i)
            = col_at (ta_bollinger_hband lib (map Adj_Close (pd_sort_values lib df)) 20 2) i
        \<and> Bollinger_Lower (indicator_table lib df ! i)
            = col_at (ta_bollinger_lband lib (map Adj_Close (pd_sort_values lib df)) 20 2) i
        \<and> RSI_14 (indicator_table lib df ! i)
            = col_at (ta_rsi lib (map Adj_Close (pd_sort_values lib df)) 14) i
        \<and> MACD (indicator_table lib df ! i)
            = col_at (ta_macd lib (map Adj_Close (pd_sort_values lib df)) 26 12 9) i
        \<and> MACD_Signal (indicator_table lib df ! i)
            = col_at (ta_macd_signal lib (map Adj_Close (pd_sort_values lib df)) 26 12 9) i
        \<and> MACD_Diff (indicator_table lib df ! i)
            = col_at (ta_macd_diff lib (map Adj_Close (pd_sort_values lib df)) 26 12 9) i)"
proof -
  have len: "length (indicator_table lib df) = length (pd_sort_values lib df)"
    by (simp add: indicator_table_def Let_def)
  have rows: "indicator_table lib df ! i = indicated_row lib (pd_sort_values lib df) i"
    if "i < length (pd_sort_values lib df)" for i
    using that by (simp add: indicator_table_def Let_def)
  show ?thesis
    using get_indicator_data_table [of lib today df] len
    by (simp add: rows indicated_row_def Let_def)
qed

text \<open>
  Three rows given out of order, the oldest one outside the window (the clock reads day
  400, the window starts at day 35): the two newer rows come back, in date order; with
  fewer than 14 rows every indicator is still undefined.
\<close>

theorem get_indicator_data_full_history_witness:
  "get_indicator_data demo_lib 34560000
     [price_row 4000000 (Num 12) (Num 100), price_row 0 (Num 10) (Num 100),
      price_row 3024000 (Num 11) (Num 100)]
   = [price_row 3024000 (Num 11) (Num 100), price_row 4000000 (Num 12) (Num 100)]
   \<and> length (indicator_table demo_lib
     [price_row 4000000 (Num 12) (Num 100), price_row 0 (Num 10) (Num 100),
      price_row 3024000 (Num 11) (Num 100)]) = 3"
proof -
  have ev: "filter (in_window 34560000) (indicator_table demo_lib
     [price_row 4000000 (Num 12) (Num 100), price_row 0 (Num 10) (Num 100),
      price_row 3024000 (Num 11) (Num 100)])
   = [price_row 3024000 (Num 11) (Num 100), price_row 4000000 (Num 12) (Num 100)]"
    by (simp add: indicator_table_def indicated_row_def demo_lib_def price_row_def Let_def
        col_at_def rolling_mean_def in_window_def timedelta_days_def upt_rec)
  have len: "length (pd_sort_values demo_lib
     [price_row 4000000 (Num 12) (Num 100), price_row 0 (Num 10) (Num 100),
      price_row 3024000 (Num 11) (Num 100)]) = 3"
    by (simp add: demo_lib_def)
  show ?thesis
    using ev len get_indicator_data_full_history [of demo_lib 34560000
        "[price_row 4000000 (Num 12) (Num 100), price_row 0 (Num 10) (Num 100),
          price_row 3024000 (Num 11) (Num 100)]"]
    by simp
qed

subsection \<open>A second application\<close>

text \<open>
  In \<open>main\<close> every pass of the loop assigns \<open>df = get_indicator_data(df)\<close>, so the next
  pass merges into, and computes the indicators from, the windowed output of the pass
  before.  A frame with strictly ascending dates is left as it is by the sort, and the
  rows that passed the window once pass it again at the same clock.
\<close>

lemma sort_values_ascending:
  assumes "sort_contract lib" and "strictly_ascending xs"
  shows "pd_sort_values lib xs = xs"
proof -
  let ?ys = "pd_sort_values lib xs"
  from assms(1) have ms: "mset ?ys = mset xs" and so: "sorted (map Date ?ys)"
    unfolding sort_contract_def by blast+
  from ms have "mset (map Date ?ys) = mset (map Date xs)" by simp
  then have "distinct (map Date ?ys) = distinct (map Date xs)"
    by (rule mset_eq_imp_distinct_iff)
  with assms(2) so have "strictly_ascending ?ys"
    by (simp add: strictly_ascending_iff)
  moreover from ms have "set ?ys = set xs" by (rule mset_eq_setD)
  ultimately show ?thesis
    using assms(2) by (rule strictly_ascending_unique [rotated])
qed

lemma strictly_ascending_dates:
  "map Date ys = map Date xs \<Longrightarrow> strictly_ascending ys = strictly_ascending xs"
  by (simp add: strictly_ascending_iff)

lemma strictly_ascending_filter:
  "strictly_ascending xs \<Longrightarrow> strictly_ascending (filter P xs)"
  unfolding strictly_ascending_def by (rule sorted_wrt_filter)

lemma strictly_ascending_update_df:
  assumes "sort_contract lib" and "strictly_ascending df \<or> incoming_rows live_df \<noteq> []"
  shows "strictly_ascending (update_df lib df live_df)"
proof (cases "incoming_rows live_df = []")
  case True
  then have "update_df lib df live_df = df"
    by (auto simp: update_df_def incoming_rows_def split: option.splits)
  with True assms(2) show ?thesis by simp
next
  case False
  then obtain live where "live_df = Some live" "live \<noteq> []"
    by (auto simp: incoming_rows_def split: option.splits)
  then show ?thesis
    using strictly_ascending_merged [OF assms(1), of "df @ live"]
    by (simp add: update_df_def)
qed

lemma Date_indicated_row: "Date (indicated_row lib full i) = Date (full ! i)"
  by (simp add: indicated_row_def Let_def)

lemma Adj_Close_indicated_row: "Adj_Close (indicated_row lib full i) = Adj_Close (full ! i)"
  by (simp add: indicated_row_def Let_def)

lemma Volume_indicated_row: "Volume (indicated_row lib full i) = Volume (full ! i)"
  by (simp add: indicated_row_def Let_def)

lemma indicator_table_ascending:
  assumes "sort_contract lib" and "strictly_ascending xs"
  shows "indicator_table lib xs = map (indicated_row lib xs) [0..<length xs]"
  by (simp add: indicator_table_def Let_def sort_values_ascending [OF assms])

lemma indicated_rows_columns:
  "map Date (map (indicated_row lib xs) [0..<length xs]) = map Date xs"
  "map Adj_Close (map (indicated_row lib xs) [0..<length xs]) = map Adj_Close xs"
  "map Volume (map (indicated_row lib xs) [0..<length xs]) = map Volume xs"
  by (rule nth_equalityI;
      simp add: Date_indicated_row Adj_Close_indicated_row Volume_indicated_row)+

lemma indicated_row_again:
  assumes "i < length xs"
  shows "indicated_row lib (map (indicated_row lib xs) [0..<length xs]) i = indicated_row lib xs i"
proof -
  have "map Adj_Close (map (indicated_row lib xs) [0..<length xs]) = map Adj_Close xs"
    by (rule indicated_rows_columns)
  then show ?thesis
    using assms unfolding indicated_row_def Let_def by simp
qed

lemma get_indicator_data_ascending:
  assumes "sort_contract lib" and "strictly_ascending xs"
  shows "strictly_ascending (get_indicator_data lib today xs)"
proof -
  have "strictly_ascending (map (indicated_row lib xs) [0..<length xs])"
    using assms(2) strictly_ascending_dates [OF indicated_rows_columns(1), of lib xs] by simp
  then show ?thesis
    unfolding get_indicator_data_table indicator_table_ascending [OF assms]
    by (rule strictly_ascending_filter)
qed

lemma get_indicator_data_again:
  assumes "sort_contract lib" and "strictly_ascending xs"
  shows "get_indicator_data lib today2 (get_indicator_data lib today1 xs)
       = filter (in_window today2)
           (map (indicated_row lib (get_indicator_data lib today1 xs))
              [0..<length (get_indicator_data lib today1 xs)])"
  unfolding get_indicator_data_table [of lib today2]
  using indicator_table_ascending [OF assms(1) get_indicator_data_ascending [OF assms]]
  by simp

lemma filter_in_window_all:
  assumes "\<forall>r \<in> set xs. in_window today r"
  shows "filter (in_window today) (map (indicated_row lib xs) [0..<length xs])
       = map (indicated_row lib xs) [0..<length xs]"
proof -
  have "in_window today (indicated_row lib xs i)" if "i < length xs" for i
    using assms that by (simp add: in_window_def Date_indicated_row)
  then show ?thesis by (simp add: filter_id_conv)
qed

text \<open>
  Claim C7, as far as it holds.  Let \<open>first\<close> be \<open>get_indicator_data\<close> applied to the output
  of \<open>update_df\<close>, and apply \<open>get_indicator_data\<close> again to \<open>first\<close>, merged with no new
  data as in a pass of the loop.  The second result is, row by row, \<open>first\<close> with every
  indicator cell read from the column the library computes from the closes of \<open>first\<close>
  alone, inside the window of the second clock.  At the same clock it has the rows of
  \<open>first\<close>, with the same dates, closes and volumes.  When no row of the merged series
  lies before the window, the second result is equal to the first.
\<close>

theorem get_indicator_data_round_trip:
  assumes "sort_contract lib" and "strictly_ascending df \<or> incoming_rows live_df \<noteq> []"
  shows "get_indicator_data lib today2
           (update_df lib (get_indicator_data lib today (update_df lib df live_df)) None)
       = filter (in_window today2)
           (map (indicated_row lib (get_indicator_data lib today (update_df lib df live_df)))
              [0..<length (get_indicator_data lib today (update_df lib df live_df))])
   \<and> get_indicator_data lib today
        (update_df lib (get_indicator_data lib today (update_df lib df live_df)) None)
       = map (indicated_row lib (get_indicator_data lib today (update_df lib df live_df)))
           [0..<length (get_indicator_data lib today (update_df lib df live_df))]
   \<and> map Date (get_indicator_data lib today
        (update_df lib (get_indicator_data lib today (update_df lib df live_df)) None))
       = map Date (get_indicator_data lib today (update_df lib df live_df))
   \<and> map Adj_Close (get_indicator_data lib today
        (update_df lib (get_indicator_data lib today (update_df lib df live_df)) None))
       = map Adj_Close (get_indicator_data lib today (update_df lib df live_df))
   \<and> map Volume (get_indicator_data lib today
        (update_df lib (get_indicator_data lib today (update_df lib df live_df)) None))
       = map Volume (get_indicator_data lib today (update_df lib df live_df))
   \<and> ((\<forall>r \<in> set (update_df lib df live_df). in_window today r) \<longrightarrow>
        get_indicator_data lib today
          (update_df lib (get_indicator_data lib today (update_df lib df live_df)) None)
        = get_indicator_data lib today (update_df lib df live_df))"
proof -
  let ?m = "update_df lib df live_df"
  let ?first = "get_indicator_data lib today ?m"
  have m: "strictly_ascending ?m"
    using assms by (rule strictly_ascending_update_df)
  have none: "update_df lib ?first None = ?first"
    by (simp add: update_df_def)
  have a: "get_indicator_data lib t ?first
      = filter (in_window t) (map (indicated_row lib ?first) [0..<length ?first])" for t
    using assms(1) m by (rule get_indicator_data_again)
  have "\<forall>r \<in> set ?first. in_window today r"
    unfolding get_indicator_data_table by simp
  then have b: "get_indicator_data lib today ?first
      = map (indicated_row lib ?first) [0..<length ?first]"
    unfolding a by (rule filter_in_window_all)
  have cols: "map Date (get_indicator_data lib today ?first) = map Date ?first
      \<and> map Adj_Close (get_indicator_data lib today ?first) = map Adj_Close ?first
      \<and> map Volume (get_indicator_data lib today ?first) = map Volume ?first"
    unfolding b by (simp only: indicated_rows_columns)
  have c: "get_indicator_data lib today ?first = ?first"
    if all: "\<forall>r \<in> set ?m. in_window today r"
  proof -
    have first: "?first = map (indicated_row lib ?m) [0..<length ?m]"
      unfolding get_indicator_data_table indicator_table_ascending [OF assms(1) m]
      using all by (rule filter_in_window_all)
    have "map (indicated_row lib (map (indicated_row lib ?m) [0..<length ?m]))
            [0..<length (map (indicated_row lib ?m) [0..<length ?m])]
        = map (indicated_row lib ?m) [0..<length ?m]"
      by (rule nth_equalityI) (simp_all add: indicated_row_again)
    with b first show ?thesis by simp
  qed
  from a [of today2] b cols c show ?thesis
    unfolding none by blast
qed

text \<open>
  The library used for evaluation computes \<open>SMA_20\<close> as the mean of the last 20 closes,
  undefined on the first 19 rows, which is what \<open>SMAIndicator\<close> does.
\<close>

lemma col_at_rolling_mean:
  "col_at (rolling_mean col n) i =
     (if i < length col
      then (if Suc i < n then NaN else cell_mean (take n (drop (Suc i - n) col)))
      else NaN)"
  by (simp add: col_at_def rolling_mean_def)

lemma SMA_20_indicated_row:
  "SMA_20 (indicated_row lib full i) = col_at (ta_sma_indicator lib (map Adj_Close full) 20) i"
  by (simp add: indicated_row_def Let_def)

lemma ramp_rows_20:
  "ramp_rows 20 = map (\<lambda>i. price_row (i * 86400) (Num (real_of_int i)) (Num 100))
     [0, 1, 2, 3, 4, 5, 6, 7, 8, 9, 10, 11, 12, 13, 14, 15, 16, 17, 18, 19, 20]"
  unfolding ramp_rows_def by (simp add: upto_rec1)

lemma update_df_ramp_rows:
  "update_df demo_lib (ramp_rows 19) (Some [price_row 1728000 (Num 20) (Num 100)]) = ramp_rows 20"
proof -
  have "ramp_rows 19 = map (\<lambda>i. price_row (i * 86400) (Num (real_of_int i)) (Num 100))
     [0, 1, 2, 3, 4, 5, 6, 7, 8, 9, 10, 11, 12, 13, 14, 15, 16, 17, 18, 19]"
    unfolding ramp_rows_def by (simp add: upto_rec1)
  then show ?thesis
    unfolding ramp_rows_20
    by (simp add: update_df_def demo_lib_def price_row_def)
qed

lemma strictly_ascending_ramp_rows: "strictly_ascending (ramp_rows 20)"
  unfolding ramp_rows_20 by (simp add: strictly_ascending_def price_row_def)

lemma length_ramp_rows: "length (ramp_rows 20) = 21"
  unfolding ramp_rows_20 by simp

lemma Date_ramp_rows: "map Date (ramp_rows 20) =
    [0, 86400, 172800, 259200, 345600, 432000, 518400, 604800, 691200, 777600, 864000,
     950400, 1036800, 1123200, 1209600, 1296000, 1382400, 1468800, 1555200, 1641600, 1728000]"
  unfolding ramp_rows_20 by (simp add: price_row_def)

lemma Adj_Close_ramp_rows: "map Adj_Close (ramp_rows 20) =
    map Num [0, 1, 2, 3, 4, 5, 6, 7, 8, 9, 10, 11, 12, 13, 14, 15, 16, 17, 18, 19, 20]"
  unfolding ramp_rows_20 by (simp add: price_row_def)

lemma first_pass_ramp_rows:
  "get_indicator_data demo_lib 31622400 (ramp_rows 20)
     = map (indicated_row demo_lib (ramp_rows 20)) [1..<21]"
proof -
  have d: "Date (ramp_rows 20 ! i) = map Date (ramp_rows 20) ! i" if "i < 21" for i
    using that by (simp add: length_ramp_rows)
  show ?thesis
    unfolding get_indicator_data_table
      indicator_table_ascending [OF sort_contract_demo_lib strictly_ascending_ramp_rows]
      length_ramp_rows
    by (simp add: upt_rec in_window_def timedelta_days_def Date_indicated_row d Date_ramp_rows)
qed

text \<open>
  Claim C7 fails when the window has cut a row.  The store holds the days 0 to 19 and
  day 20 arrives; the clock reads day 366, so the window starts at day 1.  The first
  application computes \<open>SMA_20\<close> of day 19 from the closes of the days 0 to 19, which is
  19/2.  The second application sees only the days 1 to 20, where day 19 is the 19th
  row, and its \<open>SMA_20\<close> is undefined.
\<close>

theorem get_indicator_data_round_trip_counterexample:
  "SMA_20 (get_indicator_data demo_lib 31622400
       (update_df demo_lib (ramp_rows 19) (Some [price_row 1728000 (Num 20) (Num 100)])) ! 18)
     = Num (19 / 2)
   \<and> SMA_20 (get_indicator_data demo_lib 31622400
       (update_df demo_lib
          (get_indicator_data demo_lib 31622400
             (update_df demo_lib (ramp_rows 19) (Some [price_row 1728000 (Num 20) (Num 100)])))
          None) ! 18)
     = NaN
   \<and> Date (get_indicator_data demo_lib 31622400
       (update_df demo_lib (ramp_rows 19) (Some [price_row 1728000 (Num 20) (Num 100)])) ! 18)
     = 1641600
   \<and> Date (get_indicator_data demo_lib 31622400
       (update_df demo_lib
          (get_indicator_data demo_lib 31622400
             (update_df demo_lib (ramp_rows 19) (Some [price_row 1728000 (Num 20) (Num 100)])))
          None) ! 18)
     = 1641600"
proof -
  let ?first = "get_indicator_data demo_lib 31622400 (ramp_rows 20)"
  have len: "length ?first = 20"
    unfolding first_pass_ramp_rows by simp
  have row: "?first ! 18 = indicated_row demo_lib (ramp_rows 20) 19"
    unfolding first_pass_ramp_rows by simp
  have date: "Date (ramp_rows 20 ! 19) = 1641600"
    using nth_map [of 19 "ramp_rows 20" Date]
    by (simp add: length_ramp_rows Date_ramp_rows)
  have sma1: "SMA_20 (?first ! 18) = Num (19 / 2)"
    unfolding row SMA_20_indicated_row Adj_Close_ramp_rows
    by (simp add: demo_lib_def col_at_rolling_mean cell_mean_def)
  have date1: "Date (?first ! 18) = 1641600"
    unfolding row by (simp add: Date_indicated_row date)
  have all: "\<forall>r \<in> set ?first. in_window 31622400 r"
    unfolding get_indicator_data_table by simp
  have second: "get_indicator_data demo_lib 31622400 ?first
      = map (indicated_row demo_lib ?first) [0..<length ?first]"
    unfolding get_indicator_data_again
      [OF sort_contract_demo_lib strictly_ascending_ramp_rows, of 31622400 31622400]
    using all by (rule filter_in_window_all)
  have row2: "get_indicator_data demo_lib 31622400 ?first ! 18 = indicated_row demo_lib ?first 18"
    unfolding second by (simp add: len)
  have sma2: "SMA_20 (get_indicator_data demo_lib 31622400 ?first ! 18) = NaN"
    unfolding row2 SMA_20_indicated_row
    by (simp add: demo_lib_def col_at_rolling_mean len)
  have date2: "Date (get_indicator_data demo_lib 31622400 ?first ! 18) = 1641600"
    unfolding row2 by (simp add: Date_indicated_row date1)
  have none: "update_df demo_lib ?first None = ?first"
    by (simp add: update_df_def)
  from sma1 sma2 date1 date2 show ?thesis
    unfolding update_df_ramp_rows none by simp
qed

text \<open>
  With the clock at day 20 all 21 rows are inside the window: the second application
  returns the first result, whose last row has \<open>SMA_20\<close> 21/2, the mean of the closes of
  the days 1 to 20.
\<close>

theorem get_indicator_data_round_trip_witness:
  "get_indicator_data demo_lib 1728000
     (update_df demo_lib
        (get_indicator_data demo_lib 1728000
           (update_df demo_lib (ramp_rows 19) (Some [price_row 1728000 (Num 20) (Num 100)])))
        None)
     = get_indicator_data demo_lib 1728000
         (update_df demo_lib (ramp_rows 19) (Some [price_row 1728000 (Num 20) (Num 100)]))
   \<and> length (get_indicator_data demo_lib 1728000
         (update_df demo_lib (ramp_rows 19) (Some [price_row 1728000 (Num 20) (Num 100)]))) = 21
   \<and> SMA_20 (get_indicator_data demo_lib 1728000
         (update_df demo_lib (ramp_rows 19) (Some [price_row 1728000 (Num 20) (Num 100)])) ! 20)
     = Num (21 / 2)"
proof -
  have inc: "incoming_rows (Some [price_row 1728000 (Num 20) (Num 100)]) \<noteq> []"
    by (simp add: incoming_rows_def)
  have "\<forall>d \<in> set (map Date (ramp_rows 20)). 1728000 - timedelta_days 365 \<le> d"
    unfolding Date_ramp_rows by (simp add: timedelta_days_def)
  then have all: "\<forall>r \<in> set (ramp_rows 20). in_window 1728000 r"
    by (simp add: in_window_def)
  have first: "get_indicator_data demo_lib 1728000 (ramp_rows 20)
      = map (indicated_row demo_lib (ramp_rows 20)) [0..<length (ramp_rows 20)]"
    unfolding get_indicator_data_table
      indicator_table_ascending [OF sort_contract_demo_lib strictly_ascending_ramp_rows]
    using all by (rule filter_in_window_all)
  have len: "length (get_indicator_data demo_lib 1728000 (ramp_rows 20)) = 21"
    unfolding first by (simp add: length_ramp_rows)
  have sma: "SMA_20 (get_indicator_data demo_lib 1728000 (ramp_rows 20) ! 20) = Num (21 / 2)"
    unfolding first length_ramp_rows
    by (simp add: SMA_20_indicated_row Adj_Close_ramp_rows demo_lib_def col_at_rolling_mean
        cell_mean_def)
  have "get_indicator_data demo_lib 1728000
      (update_df demo_lib (get_indicator_data demo_lib 1728000 (ramp_rows 20)) None)
    = get_indicator_data demo_lib 1728000 (ramp_rows 20)"
    using get_indicator_data_round_trip [OF sort_contract_demo_lib, of "ramp_rows 19"
        "Some [price_row 1728000 (Num 20) (Num 100)]" 31622400 1728000] inc all
    unfolding update_df_ramp_rows by blast
  with len sma show ?thesis
    unfolding update_df_ramp_rows by simp
qed

section \<open>Scale value\<close>

lemma cell_max2_cases: "cell_max2 a b = a \<or> cell_max2 a b = b"
  by (simp add: cell_max2_def)

lemma fold_cell_max2_defined:
  "\<not> is_na c \<Longrightarrow> \<forall>x \<in> set cs. \<not> is_na x \<Longrightarrow> \<not> is_na (fold cell_max2 cs c)"
proof (induction cs arbitrary: c)
  case Nil
  then show ?case by simp
next
  case (Cons x cs)
  then have "\<not> is_na (cell_max2 x c)"
    using cell_max2_cases [of x c] by auto
  with Cons show ?case by simp
qed

lemma series_max_not_None: "series_max col \<noteq> PyNone"
proof (cases "filter (\<lambda>c. \<not> is_na c) col")
  case Nil
  then show ?thesis by (simp add: series_max_def)
next
  case (Cons c cs)
  then have "set (c # cs) = {x \<in> set col. \<not> is_na x}"
    by (metis set_filter)
  then have "\<not> is_na c" and "\<forall>x \<in> set cs. \<not> is_na x"
    by auto
  then have "\<not> is_na (fold cell_max2 cs c)"
    by (rule fold_cell_max2_defined)
  with Cons show ?thesis
    by (auto simp: series_max_def is_na_def)
qed

lemma np_div_no_error: "a \<noteq> PyNone \<Longrightarrow> b \<noteq> PyNone \<Longrightarrow> \<exists>v. np_div a b = Inr v"
  by (cases a; cases b) simp_all

lemma calculate_scale_value_quotient:
  "np_div (series_max (map Adj_Close df)) (series_max (map Volume df))
     = Inr (calculate_scale_value df)"
  using np_div_no_error [OF series_max_not_None series_max_not_None,
      of "map Adj_Close df" "map Volume df"]
  by (auto simp: calculate_scale_value_def)

text \<open>
  Claim C9 at concrete frames.  With every volume zero the result is the infinity that
  the division gives, not the fallback 0.0001; with every volume undefined (NaN) it is
  NaN; with positive volumes it is the largest close over the largest volume.  By
  \<open>calculate_scale_value_quotient\<close> the \<open>except\<close> branch is never taken on a frame that
  has both columns.
\<close>

theorem calculate_scale_value_zero_volume:
  "calculate_scale_value [price_row 0 (Num 10) (Num 0), price_row 86400 (Num 12) (Num 0)] = PosInf
   \<and> calculate_scale_value [price_row 0 (Num 10) NaN, price_row 86400 (Num 12) NaN] = NaN
   \<and> calculate_scale_value [price_row 0 (Num 10) (Num 100), price_row 86400 (Num 12) (Num 400)]
       = Num (12 / 400)"
  by (simp add: calculate_scale_value_def series_max_def price_row_def is_na_def cell_max2_def)

section \<open>Live fetch\<close>

lemma get_live_yf_history:
  "bars \<noteq> [] \<Longrightarrow>
   get_live (Fetched (yf_history tz auto_adjust bars))
     = Some (map (\<lambda>b. bar_row tz (if auto_adjust then b_Adj_Close b else b_Close b) b) bars)"
  by (simp add: get_live_def yf_history_def bar_row_def naive_date_def comp_def)

lemma get_stock_data_yf_history:
  "bars \<noteq> [] \<Longrightarrow>
   get_stock_data (Fetched (yf_history tz False bars))
     = Inr (map (\<lambda>b. bar_row tz (b_Adj_Close b) b) bars)"
  by (simp add: get_stock_data_def yf_history_def bar_row_def naive_date_def comp_def)

text \<open>
  Claim C10, as far as it holds.  Every row \<open>get_live\<close> returns carries the column named
  \<open>Close\<close> of the fetched frame in its \<open>Adj_Close\<close> field, with the frame's volume and the
  naive date.  \<open>get_live\<close> fetches with the default \<open>auto_adjust\<close>, under which that
  column is the adjusted close: for the same trading days the live fetch returns the very
  rows that \<open>get_stock_data\<close> returns from its frame with \<open>auto_adjust=False\<close>, and every
  record of the merged store on a date the store did not have before holds the adjusted
  close.  Only on a frame fetched with \<open>auto_adjust=False\<close> would \<open>get_live\<close> store the
  close as traded.
\<close>

theorem get_live_adjusted_close:
  "(\<forall>live. get_live (Fetched fr) = Some live \<longrightarrow>
        map Adj_Close live = map q_Close (quotes fr)
        \<and> map Volume live = map q_Volume (quotes fr)
        \<and> map Date live = map (naive_date fr) (quotes fr))
   \<and> (bars \<noteq> [] \<longrightarrow>
        get_live (Fetched (yf_history tz True bars))
          = Some (map (\<lambda>b. bar_row tz (b_Adj_Close b) b) bars)
        \<and> get_stock_data (Fetched (yf_history tz False bars))
          = Inr (map (\<lambda>b. bar_row tz (b_Adj_Close b) b) bars)
        \<and> get_live (Fetched (yf_history tz False bars))
          = Some (map (\<lambda>b. bar_row tz (b_Close b) b) bars))
   \<and> (sort_contract lib \<longrightarrow>
        (\<forall>r \<in> set (update_df lib df (get_live (Fetched (yf_history tz True bars)))).
           Date r \<notin> Date ` set df \<longrightarrow>
             (\<exists>b \<in> set bars. r = bar_row tz (b_Adj_Close b) b)))"
proof -
  have live: "map Adj_Close live = map q_Close (quotes fr)
      \<and> map Volume live = map q_Volume (quotes fr)
      \<and> map Date live = map (naive_date fr) (quotes fr)"
    if "get_live (Fetched fr) = Some live" for live
    using that by (auto simp: get_live_def price_row_def split: if_splits)
  have calls: "get_live (Fetched (yf_history tz True bars))
          = Some (map (\<lambda>b. bar_row tz (b_Adj_Close b) b) bars)
        \<and> get_stock_data (Fetched (yf_history tz False bars))
          = Inr (map (\<lambda>b. bar_row tz (b_Adj_Close b) b) bars)
        \<and> get_live (Fetched (yf_history tz False bars))
          = Some (map (\<lambda>b. bar_row tz (b_Close b) b) bars)"
    if "bars \<noteq> []"
    using that get_live_yf_history [of bars tz True] get_live_yf_history [of bars tz False]
      get_stock_data_yf_history [of bars tz]
    by simp
  have merged: "\<exists>b \<in> set bars. r = bar_row tz (b_Adj_Close b) b"
    if sc: "sort_contract lib"
      and r: "r \<in> set (update_df lib df (get_live (Fetched (yf_history tz True bars))))"
      and new: "Date r \<notin> Date ` set df" for r
  proof -
    have "r \<in> set df \<union> set (incoming_rows (get_live (Fetched (yf_history tz True bars))))"
      using r set_update_df [OF sc, of df "get_live (Fetched (yf_history tz True bars))"]
      by blast
    with new have in_live:
      "r \<in> set (incoming_rows (get_live (Fetched (yf_history tz True bars))))"
      by blast
    then have "bars \<noteq> []"
      by (auto simp: incoming_rows_def get_live_def yf_history_def)
    with in_live show ?thesis
      by (auto simp: incoming_rows_def get_live_yf_history)
  qed
  show ?thesis using live calls merged by blast
qed

text \<open>
  Claim C10 fails for a day with close 150 as traded and adjusted close 148: the live
  fetch stores 148 under \<open>Adj_Close\<close>, as the historical fetch does, and not the 150.
\<close>

theorem get_live_raw_close_counterexample:
  "get_live (Fetched (yf_history True True
       [\<lparr>b_wall = 86400, b_offset = - 18000, b_Close = Num 150, b_Adj_Close = Num 148,
         b_Volume = Num 1000\<rparr>]))
     = Some [price_row 104400 (Num 148) (Num 1000)]
   \<and> get_stock_data (Fetched (yf_history True False
       [\<lparr>b_wall = 86400, b_offset = - 18000, b_Close = Num 150, b_Adj_Close = Num 148,
         b_Volume = Num 1000\<rparr>]))
     = Inr [price_row 104400 (Num 148) (Num 1000)]
   \<and> Adj_Close (price_row 104400 (Num 148) (Num 1000))
     \<noteq> b_Close \<lparr>b_wall = 86400, b_offset = - 18000, b_Close = Num 150, b_Adj_Close = Num 148,
         b_Volume = Num 1000\<rparr>"
  by (simp add: get_live_def get_stock_data_def yf_history_def naive_date_def price_row_def)

text \<open>
  Two trading days, the first with close 150 as traded and adjusted close 148: the live
  fetch and the historical fetch both store 148 and 151; a frame fetched with
  \<open>auto_adjust=False\<close> would make \<open>get_live\<close> store 150 and 151.
\<close>

theorem get_live_adjusted_close_witness:
  "get_live (Fetched (yf_history True True
       [\<lparr>b_wall = 86400, b_offset = - 18000, b_Close = Num 150, b_Adj_Close = Num 148,
         b_Volume = Num 1000\<rparr>,
        \<lparr>b_wall = 172800, b_offset = - 18000, b_Close = Num 151, b_Adj_Close = Num 151,
         b_Volume = Num 900\<rparr>]))
     = Some [price_row 104400 (Num 148) (Num 1000), price_row 190800 (Num 151) (Num 900)]
   \<and> get_stock_data (Fetched (yf_history True False
       [\<lparr>b_wall = 86400, b_offset = - 18000, b_Close = Num 150, b_Adj_Close = Num 148,
         b_Volume = Num 1000\<rparr>,
        \<lparr>b_wall = 172800, b_offset = - 18000, b_Close = Num 151, b_Adj_Close = Num 151,
         b_Volume = Num 900\<rparr>]))
     = Inr [price_row 104400 (Num 148) (Num 1000), price_row 190800 (Num 151) (Num 900)]
   \<and> get_live (Fetched (yf_history True False
       [\<lparr>b_wall = 86400, b_offset = - 18000, b_Close = Num 150, b_Adj_Close = Num 148,
         b_Volume = Num 1000\<rparr>,
        \<lparr>b_wall = 172800, b_offset = - 18000, b_Close = Num 151, b_Adj_Close = Num 151,
         b_Volume = Num 900\<rparr>]))
     = Some [price_row 104400 (Num 150) (Num 1000), price_row 190800 (Num 151) (Num 900)]
   \<and> update_df demo_lib [price_row 0 (Num 99) (Num 500)]
       (get_live (Fetched (yf_history True True
       [\<lparr>b_wall = 86400, b_offset = - 18000, b_Close = Num 150, b_Adj_Close = Num 148,
         b_Volume = Num 1000\<rparr>,
        \<lparr>b_wall = 172800, b_offset = - 18000, b_Close = Num 151, b_Adj_Close = Num 151,
         b_Volume = Num 900\<rparr>])))
     = [price_row 0 (Num 99) (Num 500), price_row 104400 (Num 148) (Num 1000),
        price_row 190800 (Num 151) (Num 900)]"
proof -
  have live: "get_live (Fetched (yf_history True True
       [\<lparr>b_wall = 86400, b_offset = - 18000, b_Close = Num 150, b_Adj_Close = Num 148,
         b_Volume = Num 1000\<rparr>,
        \<lparr>b_wall = 172800, b_offset = - 18000, b_Close = Num 151, b_Adj_Close = Num 151,
         b_Volume = Num 900\<rparr>]))
     = Some [price_row 104400 (Num 148) (Num 1000), price_row 190800 (Num 151) (Num 900)]"
    by (simp add: get_live_def yf_history_def naive_date_def)
  have merged: "update_df demo_lib [price_row 0 (Num 99) (Num 500)]
       (Some [price_row 104400 (Num 148) (Num 1000), price_row 190800 (Num 151) (Num 900)])
     = [price_row 0 (Num 99) (Num 500), price_row 104400 (Num 148) (Num 1000),
        price_row 190800 (Num 151) (Num 900)]"
    by (simp add: update_df_def demo_lib_def price_row_def)
  show ?thesis
    using get_live_adjusted_close [of
        "yf_history True True
       [\<lparr>b_wall = 86400, b_offset = - 18000, b_Close = Num 150, b_Adj_Close = Num 148,
         b_Volume = Num 1000\<rparr>,
        \<lparr>b_wall = 172800, b_offset = - 18000, b_Close = Num 151, b_Adj_Close = Num 151,
         b_Volume = Num 900\<rparr>]"
        "[\<lparr>b_wall = 86400, b_offset = - 18000, b_Close = Num 150, b_Adj_Close = Num 148,
         b_Volume = Num 1000\<rparr>,
        \<lparr>b_wall = 172800, b_offset = - 18000, b_Close = Num 151, b_Adj_Close = Num 151,
         b_Volume = Num 900\<rparr>]" True demo_lib "[price_row 0 (Num 99) (Num 500)]"]
      sort_contract_demo_lib merged
    unfolding live by (simp add: bar_row_def)
qed

section \<open>The monitoring loop\<close>

lemma monitor_Poll:
  "monitor lib df (Poll f today # evs) =
     (fst (monitor lib (fst (poll_once lib df f today)) evs),
      (case snd (poll_once lib df f today) of
         Inr s \<Rightarrow> Signal_Line s | Inl e \<Rightarrow> Monitoring_Error e)
        # Sleep 60 # fst (snd (monitor lib (fst (poll_once lib df f today)) evs)),
      snd (snd (monitor lib (fst (poll_once lib df f today)) evs)))"
  by (simp split: prod.splits sum.splits)

lemma monitor_running:
  "Interrupt \<notin> set evs \<Longrightarrow>
     snd (snd (monitor lib df evs)) = Running
     \<and> length (fst (snd (monitor lib df evs))) = 2 * length evs"
proof (induction evs arbitrary: df)
  case Nil
  then show ?case by simp
next
  case (Cons ev evs)
  then obtain f today where ev: "ev = Poll f today"
    by (cases ev) auto
  from Cons.prems have "Interrupt \<notin> set evs" by simp
  from Cons.IH [OF this, of "fst (poll_once lib df f today)"] show ?case
    unfolding ev monitor_Poll by simp
qed

lemma monitor_waits:
  "Interrupt \<notin> set evs \<Longrightarrow> i < length evs \<Longrightarrow>
     fst (snd (monitor lib df evs)) ! (2 * i + 1) = Sleep 60
     \<and> ((\<exists>s. fst (snd (monitor lib df evs)) ! (2 * i) = Signal_Line s)
        \<or> (\<exists>e. fst (snd (monitor lib df evs)) ! (2 * i) = Monitoring_Error e))"
proof (induction evs arbitrary: df i)
  case Nil
  then show ?case by simp
next
  case (Cons ev evs)
  then obtain f today where ev: "ev = Poll f today"
    by (cases ev) auto
  from Cons.prems have rest: "Interrupt \<notin> set evs" by simp
  show ?case
  proof (cases i)
    case 0
    then show ?thesis
      unfolding ev monitor_Poll by (simp split: sum.splits)
  next
    case (Suc j)
    with Cons.prems have "j < length evs" by simp
    from Cons.IH [OF rest this, of "fst (poll_once lib df f today)"] show ?thesis
      unfolding ev monitor_Poll Suc by simp
  qed
qed

text \<open>
  Claim C8.  As long as no \<open>KeyboardInterrupt\<close> arrives, no pass of the loop ends it:
  after any number of passes the loop is still running, every pass has written one line
  (a signal, or the error it caught) and has then reached its 60-second wait.  A pass
  whose body raises logs the error, waits, and the loop goes on with the next pass.
\<close>

theorem monitor_survives_errors:
  assumes "Interrupt \<notin> set evs"
  shows "snd (snd (monitor lib df evs)) = Running
    \<and> length (fst (snd (monitor lib df evs))) = 2 * length evs
    \<and> (\<forall>i < length evs.
          fst (snd (monitor lib df evs)) ! (2 * i + 1) = Sleep 60
          \<and> ((\<exists>s. fst (snd (monitor lib df evs)) ! (2 * i) = Signal_Line s)
             \<or> (\<exists>e. fst (snd (monitor lib df evs)) ! (2 * i) = Monitoring_Error e)))
    \<and> (\<forall>f today rest df' e.
          evs = Poll f today # rest \<and> poll_once lib df f today = (df', Inl e) \<longrightarrow>
          monitor lib df evs =
            (fst (monitor lib df' rest),
             Monitoring_Error e # Sleep 60 # fst (snd (monitor lib df' rest)),
             Running))"
proof -
  have step: "monitor lib df evs =
      (fst (monitor lib df' rest),
       Monitoring_Error e # Sleep 60 # fst (snd (monitor lib df' rest)), Running)"
    if evs: "evs = Poll f today # rest" and err: "poll_once lib df f today = (df', Inl e)"
    for f today rest df' e
  proof -
    from assms evs have "Interrupt \<notin> set rest" by simp
    then have "snd (snd (monitor lib df' rest)) = Running"
      using monitor_running by blast
    then show ?thesis
      unfolding evs monitor_Poll err by simp
  qed
  show ?thesis
    using monitor_running [OF assms, of lib df] monitor_waits [OF assms, of _ lib df] step
    by blast
qed

text \<open>
  Three passes from an empty frame: the fetch fails, then returns no rows (both times
  \<open>iloc[-1]\<close> raises IndexError on the empty frame), then returns one quote.
\<close>

theorem monitor_survives_errors_witness:
  "monitor demo_lib []
     [Poll FetchFailed 34560000,
      Poll (Fetched \<lparr>tz_aware = True, has_adj_close = False, quotes = []\<rparr>) 34560060,
      Poll (Fetched \<lparr>tz_aware = True, has_adj_close = False, quotes =
        [\<lparr>q_wall = 34000000, q_offset = - 18000, q_Close = Num 150, q_Adj_Close = NaN,
          q_Volume = Num 1000\<rparr>]\<rparr>) 34560120]
   = ([price_row 34018000 (Num 150) (Num 1000)],
      [Monitoring_Error IndexError, Sleep 60, Monitoring_Error IndexError, Sleep 60,
       Signal_Line HOLD, Sleep 60],
      Running)"
proof -
  have p1: "poll_once demo_lib [] FetchFailed 34560000 = ([], Inl IndexError)"
    by (simp add: poll_once_def get_live_def update_df_def get_indicator_data_table
        indicator_table_def demo_lib_def iloc_last_def)
  have p2: "poll_once demo_lib []
      (Fetched \<lparr>tz_aware = True, has_adj_close = False, quotes = []\<rparr>) 34560060
      = ([], Inl IndexError)"
    by (simp add: poll_once_def get_live_def update_df_def get_indicator_data_table
        indicator_table_def demo_lib_def iloc_last_def)
  have p3: "poll_once demo_lib []
      (Fetched \<lparr>tz_aware = True, has_adj_close = False, quotes =
        [\<lparr>q_wall = 34000000, q_offset = - 18000, q_Close = Num 150, q_Adj_Close = NaN,
          q_Volume = Num 1000\<rparr>]\<rparr>) 34560120
      = ([price_row 34018000 (Num 150) (Num 1000)], Inr HOLD)"
    by (simp add: poll_once_def get_live_def naive_date_def update_df_def
        get_indicator_data_table indicator_table_def indicated_row_def demo_lib_def
        price_row_def Let_def col_at_def rolling_mean_def in_window_def timedelta_days_def
        iloc_last_def predict_signal_def predict_signal_try_def buy_condition_def
        sell_condition_def py_and_def cell_gt_def cell_ge_def)
  have no_int: "Interrupt \<notin> set
     [Poll FetchFailed 34560000,
      Poll (Fetched \<lparr>tz_aware = True, has_adj_close = False, quotes = []\<rparr>) 34560060,
      Poll (Fetched \<lparr>tz_aware = True, has_adj_close = False, quotes =
        [\<lparr>q_wall = 34000000, q_offset = - 18000, q_Close = Num 150, q_Adj_Close = NaN,
          q_Volume = Num 1000\<rparr>]\<rparr>) 34560120]"
    by simp
  have rest: "monitor demo_lib []
     [Poll (Fetched \<lparr>tz_aware = True, has_adj_close = False, quotes = []\<rparr>) 34560060,
      Poll (Fetched \<lparr>tz_aware = True, has_adj_close = False, quotes =
        [\<lparr>q_wall = 34000000, q_offset = - 18000, q_Close = Num 150, q_Adj_Close = NaN,
          q_Volume = Num 1000\<rparr>]\<rparr>) 34560120]
     = ([price_row 34018000 (Num 150) (Num 1000)],
        [Monitoring_Error IndexError, Sleep 60, Signal_Line HOLD, Sleep 60], Running)"
    by (simp add: p2 p3)
  show ?thesis
    using monitor_survives_errors [OF no_int, of demo_lib "[]"] p1 rest
    by simp
qed

end
